theory Spec2Isabelle
  imports Complex_Main "HOL-Library.Sublist"
begin

section \<open>Values read from a transcript\<close>

text \<open>
  A transcript is a file of lines; \<^verbatim>\<open>json.loads\<close> turns a line into a Python value.
  The values it can return are modelled by \<open>json\<close>: \<open>None\<close>, a bool, a number, a
  \<open>str\<close>, a list or a dict. A number is read as the rational it denotes. A dict is given
  by its items; a key is looked up at its first binding. A \<open>char\<close> stands for one
  character of a Python \<open>str\<close>, so \<open>length\<close> is Python's \<open>len\<close>.
\<close>

datatype json =
    JNull
  | JBool bool
  | JNum rat
  | JStr string
  | JArr "json list"
  | JObj "(string \<times> json) list"

text \<open>The exceptions the tracker can meet.\<close>

datatype error = AttributeError | TypeError | ValueError | OSError

text \<open>Python's truth value of an object, as \<^verbatim>\<open>if x:\<close> and \<^verbatim>\<open>not x\<close> test it.\<close>

fun truthy :: "json \<Rightarrow> bool" where
  "truthy JNull = False"
| "truthy (JBool b) = b"
| "truthy (JNum n) = (n \<noteq> 0)"
| "truthy (JStr s) = (s \<noteq> [])"
| "truthy (JArr xs) = (xs \<noteq> [])"
| "truthy (JObj kvs) = (kvs \<noteq> [])"

text \<open>\<^verbatim>\<open>d.get(k, dflt)\<close> on a dict \<open>d\<close>; \<^verbatim>\<open>d.get(k)\<close> is \<open>dict_get d k JNull\<close>.\<close>

definition dict_get :: "(string \<times> json) list \<Rightarrow> string \<Rightarrow> json \<Rightarrow> json" where
  "dict_get d k dflt = (case map_of d k of None \<Rightarrow> dflt | Some v \<Rightarrow> v)"

text \<open>
  \<^verbatim>\<open>x.get(k, dflt)\<close> on any value \<open>x\<close>: only a dict has the method, every other value
  raises \<open>AttributeError\<close>.
\<close>

fun py_get :: "json \<Rightarrow> string \<Rightarrow> json \<Rightarrow> error + json" where
  "py_get (JObj d) k dflt = Inr (dict_get d k dflt)"
| "py_get _ k dflt = Inl AttributeError"

text \<open>\<^verbatim>\<open>sub in s\<close> for two strings: \<open>sub\<close> occurs in \<open>s\<close> as a contiguous piece.\<close>

fun str_contains :: "string \<Rightarrow> string \<Rightarrow> bool" where
  "str_contains sub [] = (sub = [])"
| "str_contains sub (c # cs) = (prefix sub (c # cs) \<or> str_contains sub cs)"

text \<open>
  \<^verbatim>\<open>sub in x\<close> for a string \<open>sub\<close> and any value \<open>x\<close>: substring test on a \<open>str\<close>,
  membership on a list, key membership on a dict, \<open>TypeError\<close> on everything else.
\<close>

fun str_in :: "string \<Rightarrow> json \<Rightarrow> error + bool" where
  "str_in sub (JStr s) = Inr (str_contains sub s)"
| "str_in sub (JArr xs) = Inr (JStr sub \<in> set xs)"
| "str_in sub (JObj d) = Inr (sub \<in> fst ` set d)"
| "str_in sub _ = Inl TypeError"

text \<open>\<^verbatim>\<open>len(x)\<close>: defined on a \<open>str\<close>, a list and a dict.\<close>

fun py_len :: "json \<Rightarrow> error + nat" where
  "py_len (JStr s) = Inr (length s)"
| "py_len (JArr xs) = Inr (length xs)"
| "py_len (JObj d) = Inr (length d)"
| "py_len _ = Inl TypeError"

text \<open>\<^verbatim>\<open>s.lower()\<close> on the letters \<open>A\<close> to \<open>Z\<close>.\<close>

definition lower_char :: "char \<Rightarrow> char" where
  "lower_char c =
     (case map_of (zip ''ABCDEFGHIJKLMNOPQRSTUVWXYZ'' ''abcdefghijklmnopqrstuvwxyz'') c of
        None \<Rightarrow> c
      | Some l \<Rightarrow> l)"

definition lower :: "string \<Rightarrow> string" where
  "lower s = map lower_char s"

text \<open>\<^verbatim>\<open>s.replace(c, new)\<close> for a one-character \<open>c\<close>.\<close>

definition replace_char :: "char \<Rightarrow> string \<Rightarrow> string \<Rightarrow> string" where
  "replace_char c new s = concat (map (\<lambda>x. if x = c then new else [x]) s)"

section \<open>Timestamp parser\<close>

text \<open>
  \<^verbatim>\<open>_parse_timestamp\<close>. The library call
  \<^verbatim>\<open>datetime.fromisoformat(s).timestamp()\<close> is the parameter \<open>fromiso\<close>: the epoch
  seconds of \<open>s\<close>, or \<open>None\<close> where the call raises. \<^verbatim>\<open>ts.split('.')[0]\<close> is the
  text before the first dot. A value that is not a \<open>str\<close> raises inside the \<^verbatim>\<open>try\<close>
  (\<open>TypeError\<close> from \<^verbatim>\<open>'.' in ts\<close>, or \<open>AttributeError\<close> from \<^verbatim>\<open>split\<close> or
  \<^verbatim>\<open>replace\<close>), which the bare \<^verbatim>\<open>except\<close> turns into \<open>None\<close>.
\<close>

definition clean_ts :: "string \<Rightarrow> string" where
  "clean_ts ts =
     (if CHR ''.'' \<in> set ts then takeWhile (\<lambda>c. c \<noteq> CHR ''.'') ts @ ''Z'' else ts)"

definition parse_timestamp :: "(string \<Rightarrow> rat option) \<Rightarrow> json \<Rightarrow> rat option" where
  "parse_timestamp fromiso ts =
     (if \<not> truthy ts \<or> ts = JStr ''null'' then None
      else case ts of
             JStr s \<Rightarrow> fromiso (replace_char CHR ''Z'' ''+00:00'' (clean_ts s))
           | _ \<Rightarrow> None)"

section \<open>Session analyzer: one record\<close>

text \<open>\<^verbatim>\<open>_is_command_message\<close>: the loop over the blocks of a list content.\<close>

fun command_items :: "json list \<Rightarrow> error + bool" where
  "command_items [] = Inr False"
| "command_items (item # items) =
     (case item of
        JObj d \<Rightarrow>
          if dict_get d ''type'' JNull = JStr ''text'' then
            (case str_in ''<command-name>'' (dict_get d ''text'' (JStr '''')) of
               Inl e \<Rightarrow> Inl e
             | Inr True \<Rightarrow> Inr True
             | Inr False \<Rightarrow>
                 (case str_in ''<local-command-stdout>'' (dict_get d ''text'' (JStr '''')) of
                    Inl e \<Rightarrow> Inl e
                  | Inr True \<Rightarrow> Inr True
                  | Inr False \<Rightarrow> command_items items))
          else command_items items
      | _ \<Rightarrow> command_items items)"

definition is_command_message :: "json \<Rightarrow> error + bool" where
  "is_command_message content =
     (case content of
        JStr s \<Rightarrow>
          Inr (str_contains ''<command-name>'' s \<or> str_contains ''<local-command-stdout>'' s)
      | JArr items \<Rightarrow> command_items items
      | _ \<Rightarrow> Inr False)"

text \<open>
  The four locals of \<^verbatim>\<open>_analyze_jsonl_file\<close> that the loop over the lines updates
  (\<open>timestamps\<close>, \<open>prompts\<close>, \<open>sonnet_responses\<close>, \<open>opus_responses\<close>).
\<close>

record tally =
  timestamps :: "rat list"
  prompts :: nat
  sonnet_count :: nat
  opus_count :: nat

definition tally0 :: tally where
  "tally0 = \<lparr>timestamps = [], prompts = 0, sonnet_count = 0, opus_count = 0\<rparr>"

text \<open>Lines 236 to 238: the timestamp of a record, kept when it parses to a true value.\<close>

definition collect_timestamp ::
  "(string \<Rightarrow> rat option) \<Rightarrow> (string \<times> json) list \<Rightarrow> tally \<Rightarrow> tally" where
  "collect_timestamp fromiso msg a =
     (let ts = dict_get msg ''timestamp'' JNull in
      if truthy ts then
        (case parse_timestamp fromiso ts of
           Some epoch \<Rightarrow> if epoch \<noteq> 0 then a\<lparr>timestamps := timestamps a @ [epoch]\<rparr> else a
         | None \<Rightarrow> a)
      else a)"

text \<open>
  Lines 252 to 257, the \<^verbatim>\<open>elif\<close> branch: \<^verbatim>\<open>.lower()\<close> exists on a \<open>str\<close> only.
\<close>

definition count_response :: "(string \<times> json) list \<Rightarrow> tally \<Rightarrow> error + tally" where
  "count_response msg a =
     (if dict_get msg ''type'' JNull = JStr ''assistant'' then
        (case py_get (dict_get msg ''message'' (JObj [])) ''model'' (JStr '''') of
           Inl e \<Rightarrow> Inl e
         | Inr (JStr m) \<Rightarrow>
             if str_contains ''opus'' (lower m) then Inr (a\<lparr>opus_count := opus_count a + 1\<rparr>)
             else if str_contains ''sonnet'' (lower m)
               then Inr (a\<lparr>sonnet_count := sonnet_count a + 1\<rparr>)
             else Inr a
         | Inr _ \<Rightarrow> Inl AttributeError)
      else Inr a)"

text \<open>
  Lines 241 to 257. The conjuncts of the \<^verbatim>\<open>if\<close> are evaluated left to right and stop
  at the first false one, so the lookups in \<^verbatim>\<open>message\<close> are made only for a record of
  type \<open>user\<close>.
\<close>

definition count_record :: "(string \<times> json) list \<Rightarrow> tally \<Rightarrow> error + tally" where
  "count_record msg a =
     (if dict_get msg ''type'' JNull = JStr ''user'' then
        (case py_get (dict_get msg ''message'' (JObj [])) ''role'' JNull of
           Inl e \<Rightarrow> Inl e
         | Inr role \<Rightarrow>
             if role = JStr ''user''
                \<and> \<not> truthy (dict_get msg ''isMeta'' (JBool False))
                \<and> dict_get msg ''userType'' JNull = JStr ''external''
             then
               (case py_get (dict_get msg ''message'' (JObj [])) ''content'' (JStr '''') of
                  Inl e \<Rightarrow> Inl e
                | Inr content \<Rightarrow>
                    if truthy content then
                      (case is_command_message content of
                         Inl e \<Rightarrow> Inl e
                       | Inr c \<Rightarrow> if \<not> c then Inr (a\<lparr>prompts := prompts a + 1\<rparr>) else Inr a)
                    else Inr a)
             else count_response msg a)
      else count_response msg a)"

text \<open>
  The body of the loop for one line. \<open>None\<close> is a line on which \<^verbatim>\<open>json.loads\<close>
  raises. A value that is not a dict raises at the first \<^verbatim>\<open>msg.get\<close>. An exception
  after the timestamp was appended leaves it appended.
\<close>

definition process_line :: "(string \<Rightarrow> rat option) \<Rightarrow> json option \<Rightarrow> tally \<Rightarrow> tally" where
  "process_line fromiso line a =
     (case line of
        None \<Rightarrow> a
      | Some (JObj msg) \<Rightarrow>
          (let a1 = collect_timestamp fromiso msg a in
           case count_record msg a1 of Inl e \<Rightarrow> a1 | Inr a2 \<Rightarrow> a2)
      | Some _ \<Rightarrow> a)"

section \<open>Window boundaries\<close>

text \<open>
  A naive \<^verbatim>\<open>datetime\<close>: the date, given by its proleptic Gregorian ordinal
  (\<^verbatim>\<open>toordinal()\<close>, day 1 is Monday 0001-01-01 and day 719163 is 1970-01-01), and the
  time of day.
\<close>

record datetime =
  date_ordinal :: int
  hour :: nat
  minute :: nat
  second :: nat
  microsecond :: nat

text \<open>\<^verbatim>\<open>dt.weekday()\<close>: Monday is 0.\<close>

definition weekday :: "datetime \<Rightarrow> int" where
  "weekday dt = (date_ordinal dt + 6) mod 7"

text \<open>
  \<^verbatim>\<open>dt - timedelta(days=n)\<close>. Python has no date before day 1 and raises there; the
  dates of a run are far from it.
\<close>

definition minus_days :: "datetime \<Rightarrow> int \<Rightarrow> datetime" where
  "minus_days dt n = dt\<lparr>date_ordinal := date_ordinal dt - n\<rparr>"

text \<open>
  The seconds from 1970-01-01 00:00 to \<open>dt\<close>, both read on the local calendar. Python
  compares two naive \<^verbatim>\<open>datetime\<close> objects field by field, which for valid times of
  day is the order of \<open>local_seconds\<close>.
\<close>

definition local_seconds :: "datetime \<Rightarrow> rat" where
  "local_seconds dt =
     of_int ((date_ordinal dt - 719163) * 86400
             + int (hour dt) * 3600 + int (minute dt) * 60 + int (second dt))
     + of_nat (microsecond dt) / 1000000"

text \<open>
  \<^verbatim>\<open>dt.timestamp()\<close> of a naive \<^verbatim>\<open>datetime\<close>: \<open>dt\<close> is read as local time, and
  \<open>offset dt\<close> is the offset from UTC, in seconds, that the rules of the local zone give
  for \<open>dt\<close>. It is not the same for every date where the zone has daylight saving time.
\<close>

definition timestamp :: "(datetime \<Rightarrow> int) \<Rightarrow> datetime \<Rightarrow> rat" where
  "timestamp offset dt = local_seconds dt - of_int (offset dt)"

text \<open>\<^verbatim>\<open>_get_week_start\<close>, from the reading \<open>now\<close> of \<^verbatim>\<open>datetime.now()\<close>.\<close>

definition monday_midnight :: "datetime \<Rightarrow> datetime" where
  "monday_midnight now =
     (let days_since_monday = weekday now;
          monday = minus_days now days_since_monday
      in monday\<lparr>hour := 0, minute := 0, second := 0, microsecond := 0\<rparr>)"

definition get_week_start :: "(datetime \<Rightarrow> int) \<Rightarrow> datetime \<Rightarrow> rat" where
  "get_week_start offset now = timestamp offset (monday_midnight now)"

text \<open>\<^verbatim>\<open>int(x)\<close> of a float: the fraction is cut off, towards zero.\<close>

definition py_int :: "rat \<Rightarrow> int" where
  "py_int x = (if 0 \<le> x then \<lfloor>x\<rfloor> else \<lceil>x\<rceil>)"

text \<open>\<^verbatim>\<open>_get_5h_cycle_start\<close>, from the reading \<open>now\<close> of \<^verbatim>\<open>time.time()\<close>.\<close>

definition get_5h_cycle_start :: "rat \<Rightarrow> rat" where
  "get_5h_cycle_start now =
     (let hours_since_epoch = now / 3600;
          cycle_number = py_int (hours_since_epoch / 5)
      in of_int (cycle_number * 5 * 3600))"

section \<open>The environment of a run\<close>

text \<open>
  A path is the list of its components; \<^verbatim>\<open>p / name\<close> appends one, and joining the
  empty string gives \<open>p\<close> back.
\<close>

type_synonym path = "string list"

definition joinpath :: "path \<Rightarrow> string \<Rightarrow> path" where
  "joinpath p s = (if s = [] then p else p @ [s])"

text \<open>\<^verbatim>\<open>p.name\<close>, \<^verbatim>\<open>p.parent\<close> and \<^verbatim>\<open>p.stem\<close> of \<^verbatim>\<open>pathlib\<close>.\<close>

definition path_name :: "path \<Rightarrow> string" where
  "path_name p = (if p = [] then [] else last p)"

definition path_parent :: "path \<Rightarrow> path" where
  "path_parent p = butlast p"

definition path_stem :: "path \<Rightarrow> string" where
  "path_stem p =
     (let name = path_name p;
          after_dot = takeWhile (\<lambda>c. c \<noteq> CHR ''.'') (rev name);
          i = length name - length after_dot - 1
      in if CHR ''.'' \<in> set name \<and> 0 < i \<and> after_dot \<noteq> [] then take i name else name)"

text \<open>What \<^verbatim>\<open>f.stat()\<close> returns, as far as the tracker reads it.\<close>

record stat_result =
  st_mtime :: rat
  st_size :: nat

text \<open>
  Everything a run takes from outside the tracker's own code: two library functions, the
  filesystem and the clock.
  \<^item> \<open>fromisoformat_timestamp\<close> is \<^verbatim>\<open>datetime.fromisoformat(s).timestamp()\<close>, \<open>None\<close>
    where it raises; \<open>json_dumps\<close> is \<^verbatim>\<open>json.dumps\<close>.
  \<^item> \<open>path_exists\<close>, \<open>path_is_dir\<close> and \<open>glob_jsonl\<close> (\<^verbatim>\<open>p.glob('*.jsonl')\<close>)
    answer without raising; \<open>iterdir\<close> and \<open>stat\<close> raise \<open>OSError\<close> where the
    operating system refuses them (a directory that may not be listed, a file that is
    gone or a link that leads nowhere).
  \<^item> \<open>read_lines p\<close> is what opening \<open>p\<close> and iterating over its lines yields: each line
    as \<^verbatim>\<open>json.loads\<close> returns it (\<open>None\<close> where that raises), and the error that
    ended the reading, if one did. A file that cannot be opened yields no line and an error.
  \<^item> \<open>clock n\<close> is what the call number \<open>n\<close> of \<^verbatim>\<open>time.time()\<close> returns;
    \<open>datetime_now\<close> is the reading of \<^verbatim>\<open>datetime.now()\<close> when the tracker is made and
    \<open>utcoffset dt\<close> the offset of local time from UTC, in seconds, that
    \<^verbatim>\<open>dt.timestamp()\<close> applies to the naive local \<^verbatim>\<open>datetime\<close> \<open>dt\<close>.
  \<^item> \<open>home\<close> is \<^verbatim>\<open>Path.home()\<close> and \<open>getcwd\<close> is \<^verbatim>\<open>os.getcwd()\<close>.
  \<^item> \<open>py_round x n\<close> is \<^verbatim>\<open>round(x, n)\<close> on floats. The tracker computes hours and
    percentages in binary floating point; the model computes them in the rationals and
    leaves the rounding to the environment.
\<close>

record env =
  fromisoformat_timestamp :: "string \<Rightarrow> rat option"
  json_dumps :: "json \<Rightarrow> string"
  path_exists :: "path \<Rightarrow> bool"
  path_is_dir :: "path \<Rightarrow> bool"
  iterdir :: "path \<Rightarrow> error + path list"
  glob_jsonl :: "path \<Rightarrow> path list"
  stat :: "path \<Rightarrow> error + stat_result"
  read_lines :: "path \<Rightarrow> json option list \<times> error option"
  clock :: "nat \<Rightarrow> rat"
  datetime_now :: datetime
  utcoffset :: "datetime \<Rightarrow> int"
  home :: path
  getcwd :: string
  py_round :: "rat \<Rightarrow> nat \<Rightarrow> rat"

section \<open>Session analyzer: one file\<close>

record session =
  session_id :: string
  start_time :: rat
  end_time :: rat
  duration_hours :: rat
  prompt_count :: nat
  sonnet_responses :: nat
  opus_responses :: nat
  project :: string

text \<open>
  The state of a \<^verbatim>\<open>UsageTracker\<close> object, and with it the number of readings of the
  clock taken so far. The cache has one time for all its entries.
\<close>

record tracker =
  claude_projects :: path
  week_start :: rat
  cycle_5h_start :: rat
  cache :: "path \<Rightarrow> session option"
  cache_time :: rat
  cache_duration :: rat
  clock_reads :: nat

text \<open>
  \<^verbatim>\<open>__init__\<close>: the tracker as it is made, after the one reading of the clock that
  \<^verbatim>\<open>_get_5h_cycle_start\<close> takes. Before that \<^verbatim>\<open>__init__\<close> makes the directory for the
  tracker's own data; where that fails there is no tracker, and no run to speak of.
\<close>

definition init_tracker :: "env \<Rightarrow> tracker" where
  "init_tracker e =
     \<lparr>claude_projects = joinpath (joinpath (home e) ''.claude'') ''projects'',
      week_start = get_week_start (utcoffset e) (datetime_now e),
      cycle_5h_start = get_5h_cycle_start (clock e 0),
      cache = Map.empty, cache_time = 0, cache_duration = 5, clock_reads = 1\<rparr>"

text \<open>\<^verbatim>\<open>time.time()\<close>: the next reading, and the state that has taken it.\<close>

definition time_time :: "env \<Rightarrow> tracker \<Rightarrow> rat \<times> tracker" where
  "time_time e tr = (clock e (clock_reads tr), tr\<lparr>clock_reads := clock_reads tr + 1\<rparr>)"

text \<open>
  Lines 224 to 261: the scan of the file. An error on opening or reading is passed over
  and leaves what was counted before it.
\<close>

definition scan_file :: "env \<Rightarrow> path \<Rightarrow> tally" where
  "scan_file e p =
     fold (process_line (fromisoformat_timestamp e)) (fst (read_lines e p)) tally0"

text \<open>Lines 263 to 283: the session made of the scan.\<close>

definition make_session :: "path \<Rightarrow> tally \<Rightarrow> session" where
  "make_session p a =
     (let start = (if timestamps a \<noteq> [] then Min (set (timestamps a)) else 0);
          endt = (if timestamps a \<noteq> [] then Max (set (timestamps a)) else 0);
          duration = (if timestamps a \<noteq> [] then (endt - start) / 3600 else 0)
      in \<lparr>session_id = path_stem p, start_time = start, end_time = endt,
          duration_hours = duration, prompt_count = prompts a,
          sonnet_responses = sonnet_count a, opus_responses = opus_count a,
          project = path_name (path_parent p)\<rparr>)"

text \<open>
  \<^verbatim>\<open>_analyze_jsonl_file\<close>. The clock is read for the cache test only when the path has
  an entry, and once more when the new session is stored.
\<close>

definition analyze_miss :: "env \<Rightarrow> path \<Rightarrow> tracker \<Rightarrow> session \<times> tracker" where
  "analyze_miss e p tr =
     (let s = make_session p (scan_file e p);
          (now, tr1) = time_time e tr
      in (s, tr1\<lparr>cache := (cache tr1)(p \<mapsto> s), cache_time := now\<rparr>))"

definition analyze_jsonl_file :: "env \<Rightarrow> path \<Rightarrow> tracker \<Rightarrow> session \<times> tracker" where
  "analyze_jsonl_file e p tr =
     (case cache tr p of
        None \<Rightarrow> analyze_miss e p tr
      | Some cached \<Rightarrow>
          (let (now, tr1) = time_time e tr
           in if now - cache_time tr1 < cache_duration tr1 then (cached, tr1)
              else analyze_miss e p tr1))"

section \<open>Usage aggregator\<close>

text \<open>\<^verbatim>\<open>get_all_sessions\<close>: the inner loop over the files of one project directory.\<close>

fun analyze_files ::
  "env \<Rightarrow> path list \<Rightarrow> session list \<times> tracker \<Rightarrow> session list \<times> tracker" where
  "analyze_files e [] (sessions, tr) = (sessions, tr)"
| "analyze_files e (jsonl_file # rest) (sessions, tr) =
     (let (s, tr1) = analyze_jsonl_file e jsonl_file tr
      in analyze_files e rest
           (if duration_hours s > 0 then sessions @ [s] else sessions, tr1))"

text \<open>The outer loop over the entries of the storage root.\<close>

fun scan_projects ::
  "env \<Rightarrow> path list \<Rightarrow> session list \<times> tracker \<Rightarrow> session list \<times> tracker" where
  "scan_projects e [] st = st"
| "scan_projects e (project_dir # rest) st =
     scan_projects e rest
       (if path_is_dir e project_dir then analyze_files e (glob_jsonl e project_dir) st
        else st)"

definition get_all_sessions :: "env \<Rightarrow> tracker \<Rightarrow> error + (session list \<times> tracker)" where
  "get_all_sessions e tr =
     (if \<not> path_exists e (claude_projects tr) then Inr ([], tr)
      else case iterdir e (claude_projects tr) of
             Inl err \<Rightarrow> Inl err
           | Inr dirs \<Rightarrow> Inr (scan_projects e dirs ([], tr)))"

text \<open>Lines 327 to 332: what one session of the week adds to the two running totals.\<close>

definition add_hours :: "session \<Rightarrow> rat \<times> rat \<Rightarrow> rat \<times> rat" where
  "add_hours s = (\<lambda>(sonnet_hours, opus_hours).
     let total_responses = sonnet_responses s + opus_responses s
     in if total_responses > 0 then
          (let sonnet_ratio = of_nat (sonnet_responses s) / of_nat total_responses;
               opus_ratio = of_nat (opus_responses s) / of_nat total_responses
           in (sonnet_hours + duration_hours s * sonnet_ratio,
               opus_hours + duration_hours s * opus_ratio))
        else (sonnet_hours, opus_hours))"

definition model_hours :: "session list \<Rightarrow> rat \<times> rat" where
  "model_hours week_sessions = fold add_hours week_sessions (0, 0)"

record context_data =
  estimated_tokens :: nat
  context_limit :: nat
  percentage :: rat
  warning_threshold :: rat

text \<open>\<^verbatim>\<open>UsageData\<close>; its field \<^verbatim>\<open>context\<close> is \<open>context_usage\<close> here.\<close>

record usage_data =
  current_5h_prompts :: nat
  current_5h_start :: rat
  weekly_sonnet_hours :: rat
  weekly_opus_hours :: rat
  weekly_prompts :: nat
  weekly_start :: rat
  last_updated :: rat
  sessions :: "session list"
  context_usage :: "context_data option"

text \<open>
  Lines 313 to 347 of \<^verbatim>\<open>calculate_usage\<close>: the summary made of the sessions that
  \<^verbatim>\<open>get_all_sessions\<close> returned, the context data and the time of the update.
\<close>

definition summarize ::
  "env \<Rightarrow> tracker \<Rightarrow> session list \<Rightarrow> context_data option \<Rightarrow> rat \<Rightarrow> usage_data" where
  "summarize e tr all_sessions context_data now =
     (let week_sessions = filter (\<lambda>s. start_time s \<ge> week_start tr) all_sessions;
          cycle_sessions = filter (\<lambda>s. start_time s \<ge> cycle_5h_start tr) all_sessions;
          cycle_prompts = sum_list (map prompt_count cycle_sessions);
          weekly_prompts = sum_list (map prompt_count week_sessions);
          (sonnet_hours, opus_hours) = model_hours week_sessions
      in \<lparr>current_5h_prompts = cycle_prompts,
          current_5h_start = cycle_5h_start tr,
          weekly_sonnet_hours = py_round e sonnet_hours 2,
          weekly_opus_hours = py_round e opus_hours 2,
          weekly_prompts = weekly_prompts,
          weekly_start = week_start tr,
          last_updated = now,
          sessions = week_sessions,
          context_usage = context_data\<rparr>)"

section \<open>Context estimator\<close>

text \<open>
  \<^verbatim>\<open>max(xs, key=k)\<close>: the key is computed for every element, in order, and an exception
  of the key is the exception of the call; of several largest elements the first is
  returned; the empty list raises \<open>ValueError\<close>.
\<close>

fun max_from :: "('a \<Rightarrow> error + rat) \<Rightarrow> 'a list \<Rightarrow> 'a \<Rightarrow> rat \<Rightarrow> error + 'a" where
  "max_from key [] best best_key = Inr best"
| "max_from key (x # xs) best best_key =
     (case key x of
        Inl err \<Rightarrow> Inl err
      | Inr k \<Rightarrow> if best_key < k then max_from key xs x k else max_from key xs best best_key)"

fun max_by :: "('a \<Rightarrow> error + rat) \<Rightarrow> 'a list \<Rightarrow> error + 'a" where
  "max_by key [] = Inl ValueError"
| "max_by key (x # xs) =
     (case key x of Inl err \<Rightarrow> Inl err | Inr k \<Rightarrow> max_from key xs x k)"

text \<open>\<^verbatim>\<open>f.stat().st_mtime\<close>.\<close>

definition mtime_of :: "env \<Rightarrow> path \<Rightarrow> error + rat" where
  "mtime_of e f = (case stat e f of Inl err \<Rightarrow> Inl err | Inr st \<Rightarrow> Inr (st_mtime st))"

text \<open>
  Lines 113 to 121: the loop of the fallback over the entries of the storage root, with
  the list \<^verbatim>\<open>recent_dirs\<close> it fills.
\<close>

fun recent_dirs_loop ::
  "env \<Rightarrow> path list \<Rightarrow> (path \<times> rat) list \<times> tracker
     \<Rightarrow> error + ((path \<times> rat) list \<times> tracker)" where
  "recent_dirs_loop e [] (recent_dirs, tr) = Inr (recent_dirs, tr)"
| "recent_dirs_loop e (pdir # rest) (recent_dirs, tr) =
     (if path_is_dir e pdir \<and> \<not> prefix ''.'' (path_name pdir) then
        (let jsonl_files = glob_jsonl e pdir
         in if jsonl_files \<noteq> [] then
              (case max_by (mtime_of e) jsonl_files of
                 Inl err \<Rightarrow> Inl err
               | Inr most_recent \<Rightarrow>
                   (case mtime_of e most_recent of
                      Inl err \<Rightarrow> Inl err
                    | Inr mtime \<Rightarrow>
                        (let (now, tr1) = time_time e tr
                         in recent_dirs_loop e rest
                              (if now - mtime < 300 then recent_dirs @ [(pdir, mtime)]
                               else recent_dirs, tr1))))
            else recent_dirs_loop e rest (recent_dirs, tr))
      else recent_dirs_loop e rest (recent_dirs, tr))"

text \<open>Lines 106 to 125: the project directory the estimator settles on.\<close>

definition resolve_project_dir ::
  "env \<Rightarrow> string \<Rightarrow> tracker \<Rightarrow> error + (path \<times> tracker)" where
  "resolve_project_dir e project_path tr =
     (let encoded_path = replace_char CHR ''/'' ''-'' project_path;
          project_dir = joinpath (claude_projects tr) encoded_path
      in if \<not> path_exists e project_dir \<and> path_exists e (claude_projects tr) then
           (case iterdir e (claude_projects tr) of
              Inl err \<Rightarrow> Inl err
            | Inr pdirs \<Rightarrow>
                (case recent_dirs_loop e pdirs ([], tr) of
                   Inl err \<Rightarrow> Inl err
                 | Inr (recent_dirs, tr1) \<Rightarrow>
                     if recent_dirs \<noteq> [] then
                       (case max_by (\<lambda>x. Inr (snd x)) recent_dirs of
                          Inl err \<Rightarrow> Inl err
                        | Inr best \<Rightarrow> Inr (fst best, tr1))
                     else Inr (project_dir, tr1)))
         else Inr (project_dir, tr))"

text \<open>
  Lines 148 to 171: the characters one line adds to \<^verbatim>\<open>total_content_chars\<close>. Every
  function takes the total so far; what was added before an exception stays added, so a
  function that can raise returns the total it reached and the exception, if any.
\<close>

fun count_blocks :: "json list \<Rightarrow> nat \<Rightarrow> nat \<times> error option" where
  "count_blocks [] n = (n, None)"
| "count_blocks (cb # cbs) n =
     (case cb of
        JObj d \<Rightarrow>
          if truthy (dict_get d ''text'' JNull) then
            (case py_len (dict_get d ''text'' JNull) of
               Inl err \<Rightarrow> (n, Some err)
             | Inr k \<Rightarrow> count_blocks cbs (n + k))
          else count_blocks cbs n
      | _ \<Rightarrow> count_blocks cbs n)"

definition count_item :: "env \<Rightarrow> json \<Rightarrow> nat \<Rightarrow> nat \<times> error option" where
  "count_item e item n =
     (case item of
        JObj d \<Rightarrow>
          (case (if truthy (dict_get d ''text'' (JStr []))
                 then py_len (dict_get d ''text'' (JStr [])) else Inr 0) of
             Inl err \<Rightarrow> (n, Some err)
           | Inr k \<Rightarrow>
               (let n1 = n + k;
                    n2 = (if truthy (dict_get d ''input'' JNull)
                          then n1 + length (json_dumps e (dict_get d ''input'' JNull)) else n1)
                in if truthy (dict_get d ''content'' JNull) then
                     (case dict_get d ''content'' JNull of
                        JArr cbs \<Rightarrow> count_blocks cbs n2
                      | _ \<Rightarrow> (n2, None))
                   else (n2, None)))
      | _ \<Rightarrow> (n, None))"

fun count_items :: "env \<Rightarrow> json list \<Rightarrow> nat \<Rightarrow> nat \<times> error option" where
  "count_items e [] n = (n, None)"
| "count_items e (item # items) n =
     (case count_item e item n of
        (n1, Some err) \<Rightarrow> (n1, Some err)
      | (n1, None) \<Rightarrow> count_items e items n1)"

definition count_line :: "env \<Rightarrow> json option \<Rightarrow> nat \<Rightarrow> nat" where
  "count_line e line n =
     (case line of
        None \<Rightarrow> n
      | Some (JObj msg) \<Rightarrow>
          if dict_get msg ''type'' JNull \<noteq> JStr ''user''
             \<and> dict_get msg ''type'' JNull \<noteq> JStr ''assistant'' then n
          else
            (case py_get (dict_get msg ''message'' (JObj [])) ''content'' (JStr []) of
               Inl err \<Rightarrow> n
             | Inr (JStr s) \<Rightarrow> n + length s
             | Inr (JArr items) \<Rightarrow> fst (count_items e items n)
             | Inr _ \<Rightarrow> n)
      | Some _ \<Rightarrow> n)"

definition total_content_chars :: "env \<Rightarrow> json option list \<Rightarrow> nat" where
  "total_content_chars e lines = fold (count_line e) lines 0"

text \<open>Lines 178 to 190: the result made of the two sizes.\<close>

definition make_context :: "env \<Rightarrow> nat \<Rightarrow> nat \<Rightarrow> context_data" where
  "make_context e file_size content_chars =
     (let file_based_tokens = file_size div 6;
          content_based_tokens = content_chars div 4;
          tokens = max file_based_tokens content_based_tokens;
          pct = (of_nat tokens / 200000) * 100
      in \<lparr>estimated_tokens = tokens, context_limit = 200000,
          percentage = py_round e pct 1, warning_threshold = 45\<rparr>)"

text \<open>
  Lines 140 to 182: the \<^verbatim>\<open>try\<close> around the reading of the selected transcript. Any
  exception in it gives \<open>None\<close>.
\<close>

definition read_context :: "env \<Rightarrow> path \<Rightarrow> context_data option" where
  "read_context e current_session =
     (case stat e current_session of
        Inl err \<Rightarrow> None
      | Inr st \<Rightarrow>
          (case read_lines e current_session of
             (lines, Some err) \<Rightarrow> None
           | (lines, None) \<Rightarrow>
               Some (make_context e (st_size st) (total_content_chars e lines))))"

text \<open>
  \<^verbatim>\<open>estimate_context_usage\<close>. \<open>Inl\<close> is an exception that leaves the call; \<open>Inr None\<close>
  is the returned \<open>None\<close>.
\<close>

definition estimate_context_usage ::
  "env \<Rightarrow> string option \<Rightarrow> tracker \<Rightarrow> error + (context_data option \<times> tracker)" where
  "estimate_context_usage e project_path tr =
     (case resolve_project_dir e
             (case project_path of None \<Rightarrow> getcwd e | Some pp \<Rightarrow> pp) tr of
        Inl err \<Rightarrow> Inl err
      | Inr (project_dir, tr1) \<Rightarrow>
          if \<not> path_exists e project_dir then Inr (None, tr1)
          else
            (let jsonl_files = glob_jsonl e project_dir
             in if jsonl_files = [] then Inr (None, tr1)
                else
                  (case max_by (mtime_of e) jsonl_files of
                     Inl err \<Rightarrow> Inl err
                   | Inr current_session \<Rightarrow> Inr (read_context e current_session, tr1))))"

text \<open>\<^verbatim>\<open>calculate_usage\<close>.\<close>

definition calculate_usage :: "env \<Rightarrow> tracker \<Rightarrow> error + (usage_data \<times> tracker)" where
  "calculate_usage e tr =
     (case get_all_sessions e tr of
        Inl err \<Rightarrow> Inl err
      | Inr (all_sessions, tr1) \<Rightarrow>
          (case estimate_context_usage e None tr1 of
             Inl err \<Rightarrow> Inl err
           | Inr (context_data, tr2) \<Rightarrow>
               (let (now, tr3) = time_time e tr2
                in Inr (summarize e tr3 all_sessions context_data now, tr3))))"

section \<open>A reference parser for timestamps\<close>

text \<open>
  The theorems about the analyzer hold for every behaviour of the library parser
  (\<open>fromisoformat_timestamp\<close>). To run the tracker on concrete records, \<open>iso_epoch\<close> reads
  the timestamps of the form \<^verbatim>\<open>YYYY-MM-DDTHH:MM:SS+HH:MM\<close> (or with \<^verbatim>\<open>-HH:MM\<close>), the
  form a transcript's timestamp has once its \<^verbatim>\<open>Z\<close> is replaced, and gives the epoch
  seconds of the instant they denote. It gives \<open>None\<close> on every other string, also on
  the other forms that the library reads.
\<close>

definition digit_of :: "char \<Rightarrow> nat option" where
  "digit_of c =
     (if (48::nat) \<le> of_char c \<and> of_char c \<le> (57::nat) then Some (of_char c - 48) else None)"

fun number_from :: "nat \<Rightarrow> string \<Rightarrow> nat option" where
  "number_from n [] = Some n"
| "number_from n (c # cs) =
     (case digit_of c of None \<Rightarrow> None | Some d \<Rightarrow> number_from (10 * n + d) cs)"

text \<open>The number written by the \<open>len\<close> characters of \<open>s\<close> from position \<open>pos\<close> on.\<close>

definition field :: "string \<Rightarrow> nat \<Rightarrow> nat \<Rightarrow> nat option" where
  "field s pos len = number_from 0 (take len (drop pos s))"

text \<open>Days from 1970-01-01 to the given date of the Gregorian calendar.\<close>

definition days_from_civil :: "int \<Rightarrow> int \<Rightarrow> int \<Rightarrow> int" where
  "days_from_civil y m d =
     (let y1 = (if m \<le> 2 then y - 1 else y);
          era = y1 div 400;
          yoe = y1 - era * 400;
          doy = (153 * (if 2 < m then m - 3 else m + 9) + 2) div 5 + d - 1;
          doe = yoe * 365 + yoe div 4 - yoe div 100 + doy
      in era * 146097 + doe - 719468)"

text \<open>The number of days of month \<open>m\<close> in year \<open>y\<close>.\<close>

definition days_in_month :: "nat \<Rightarrow> nat \<Rightarrow> nat" where
  "days_in_month y m =
     (if m = 2 then (if (y mod 4 = 0 \<and> y mod 100 \<noteq> 0) \<or> y mod 400 = 0 then 29 else 28)
      else if m \<in> {4, 6, 9, 11} then 30 else 31)"

definition iso_epoch :: "string \<Rightarrow> rat option" where
  "iso_epoch s =
     (if length s = 25 \<and> s ! 4 = CHR ''-'' \<and> s ! 7 = CHR ''-'' \<and> s ! 10 = CHR ''T''
         \<and> s ! 13 = CHR '':'' \<and> s ! 16 = CHR '':''
         \<and> (s ! 19 = CHR ''+'' \<or> s ! 19 = CHR ''-'') \<and> s ! 22 = CHR '':''
      then
        (case those [field s 0 4, field s 5 2, field s 8 2, field s 11 2, field s 14 2,
                     field s 17 2, field s 20 2, field s 23 2] of
           Some [y, m, d, h, mi, sec, oh, om] \<Rightarrow>
             if 1 \<le> y \<and> 1 \<le> m \<and> m \<le> 12 \<and> 1 \<le> d \<and> d \<le> days_in_month y m
                \<and> h < 24 \<and> mi < 60 \<and> sec < 60 \<and> oh < 24 \<and> om < 60
             then
               (let local = days_from_civil (int y) (int m) (int d) * 86400
                            + int h * 3600 + int mi * 60 + int sec;
                    offset = int oh * 3600 + int om * 60
                in Some (of_int (if s ! 19 = CHR ''+'' then local - offset else local + offset)))
             else None
         | _ \<Rightarrow> None)
      else None)"

text \<open>
  A rounding to run the tracker with: \<^verbatim>\<open>round(x, n)\<close> read on exact numbers, the nearest
  multiple of \<open>10\<close> to the power \<open>-n\<close>, a tie going to the even one. The library
  rounds the binary float, which lies a little off a decimal that has no exact binary form,
  so at such a tie the two can differ; no property below depends on the values of
  \<open>round_exact\<close>.
\<close>

definition round_half_even :: "rat \<Rightarrow> int" where
  "round_half_even x =
     (let f = \<lfloor>x\<rfloor>; d = x - of_int f
      in if d < 1 / 2 then f else if 1 / 2 < d then f + 1 else if even f then f else f + 1)"

definition round_exact :: "rat \<Rightarrow> nat \<Rightarrow> rat" where
  "round_exact x n = of_int (round_half_even (x * 10 ^ n)) / 10 ^ n"

section \<open>Inputs to run the tracker on\<close>

text \<open>An assistant record whose model identifier names both families.\<close>

definition opus_sonnet_record :: "(string \<times> json) list" where
  "opus_sonnet_record =
     [(''type'', JStr ''assistant''),
      (''message'', JObj [(''role'', JStr ''assistant''), (''model'', JStr ''Opus-or-Sonnet'')])]"

text \<open>A session of two hours with three sonnet responses and one opus response.\<close>

definition mixed_session :: session where
  "mixed_session =
     \<lparr>session_id = ''a'', start_time = 1704110400, end_time = 1704117600,
      duration_hours = 2, prompt_count = 2, sonnet_responses = 3, opus_responses = 1,
      project = ''-home-u-proj''\<rparr>"

text \<open>
  Wednesday 2024-01-03, 15:30:45.25 local time (day 738888), in a zone that is one hour
  east of UTC on that day; the same instant in epoch seconds.
\<close>

definition wednesday_afternoon :: datetime where
  "wednesday_afternoon =
     \<lparr>date_ordinal = 738888, hour = 15, minute = 30, second = 45, microsecond = 250000\<rparr>"

definition wednesday_epoch :: rat where
  "wednesday_epoch = 1704292245 + 1 / 4"

text \<open>
  Central European time in 2024, as \<^verbatim>\<open>timestamp()\<close> resolves a naive \<^verbatim>\<open>datetime\<close>:
  two hours east of UTC from 31 March (day 738976) 03:00 to 27 October (day 739186) 03:00,
  one hour east of it before and after.
\<close>

definition cet_2024 :: "datetime \<Rightarrow> int" where
  "cet_2024 dt =
     (if (738976 < date_ordinal dt \<or> date_ordinal dt = 738976 \<and> 3 \<le> hour dt)
         \<and> (date_ordinal dt < 739186 \<or> date_ordinal dt = 739186 \<and> hour dt < 3)
      then 7200 else 3600)"

text \<open>
  Sunday 2024-10-27, 23:59:59 local time, the day summer time ended; the Monday of that
  week was in summer time. The same instant in epoch seconds.
\<close>

definition sunday_night :: datetime where
  "sunday_night =
     \<lparr>date_ordinal = 739186, hour = 23, minute = 59, second = 59, microsecond = 0\<rparr>"

definition sunday_epoch :: rat where
  "sunday_epoch = 1730069999"

text \<open>
  A storage root with one project directory and three transcripts in it: \<open>a.jsonl\<close> is a
  session of two hours, \<open>b.jsonl\<close> has one prompt (\<open>hello\<close>) and no timestamp, and every
  timestamp of \<open>c.jsonl\<close> is the epoch instant or does not parse.
\<close>

definition projects_root :: path where
  "projects_root = [''home'', ''u'', ''.claude'', ''projects'']"

definition project_u :: path where
  "project_u = projects_root @ [''-home-u-proj'']"

definition file_a :: path where
  "file_a = project_u @ [''a.jsonl'']"

definition file_b :: path where
  "file_b = project_u @ [''b.jsonl'']"

definition file_c :: path where
  "file_c = project_u @ [''c.jsonl'']"

definition user_record :: "json \<Rightarrow> json \<Rightarrow> json" where
  "user_record ts content =
     JObj [(''type'', JStr ''user''), (''timestamp'', ts),
           (''message'', JObj [(''role'', JStr ''user''), (''content'', content)]),
           (''isMeta'', JBool False), (''userType'', JStr ''external'')]"

definition assistant_record :: "json \<Rightarrow> string \<Rightarrow> json" where
  "assistant_record ts model =
     JObj [(''type'', JStr ''assistant''), (''timestamp'', ts),
           (''message'', JObj [(''role'', JStr ''assistant''), (''model'', JStr model),
                               (''content'', JArr [JObj [(''type'', JStr ''text''),
                                                        (''text'', JStr ''hi'')]])])]"

definition lines_a :: "json option list" where
  "lines_a =
     [Some (user_record (JStr ''2024-01-03T10:00:00.000Z'') (JStr ''hello'')),
      None,
      Some (assistant_record (JStr ''2024-01-03T12:00:00.000Z'') ''claude-sonnet-4'')]"

definition lines_b :: "json option list" where
  "lines_b = [Some (user_record JNull (JStr ''hello''))]"

definition lines_c :: "json option list" where
  "lines_c =
     [Some (user_record (JStr ''1970-01-01T00:00:00.000Z'') (JStr ''hello'')),
      Some (assistant_record (JStr ''yesterday'') ''claude-opus-4'')]"

text \<open>
  The environment: \<open>b.jsonl\<close> is the transcript modified last and has 600 bytes. No record
  has an \<open>input\<close> field, so \<^verbatim>\<open>json.dumps\<close> is never called and is left constant.
  The clock stands at Wednesday 2024-01-03, 15:30:45.25 Central European time.
\<close>

definition demo_env :: env where
  "demo_env =
     \<lparr>fromisoformat_timestamp = iso_epoch,
      json_dumps = (\<lambda>j. []),
      path_exists = (\<lambda>p. p \<in> set [projects_root, project_u, file_a, file_b, file_c]),
      path_is_dir = (\<lambda>p. p \<in> set [projects_root, project_u]),
      iterdir = (\<lambda>p. if p = projects_root then Inr [project_u]
                      else if p = project_u then Inr [file_a, file_b, file_c]
                      else Inl OSError),
      glob_jsonl = (\<lambda>p. if p = project_u then [file_a, file_b, file_c] else []),
      stat = (\<lambda>p. if p = file_a then Inr \<lparr>st_mtime = 1704290000, st_size = 900\<rparr>
                   else if p = file_b then Inr \<lparr>st_mtime = 1704292000, st_size = 600\<rparr>
                   else if p = file_c then Inr \<lparr>st_mtime = 1704280000, st_size = 700\<rparr>
                   else if p = projects_root \<or> p = project_u
                     then Inr \<lparr>st_mtime = 1704292000, st_size = 4096\<rparr>
                   else Inl OSError),
      read_lines = (\<lambda>p. if p = file_a then (lines_a, None)
                         else if p = file_b then (lines_b, None)
                         else if p = file_c then (lines_c, None)
                         else ([], Some OSError)),
      clock = (\<lambda>n. wednesday_epoch),
      datetime_now = wednesday_afternoon,
      utcoffset = cet_2024,
      home = [''home'', ''u''],
      getcwd = ''/home/u/proj'',
      py_round = round_exact\<rparr>"

text \<open>The session that \<open>a.jsonl\<close> gives.\<close>

definition session_a :: session where
  "session_a =
     \<lparr>session_id = ''a'', start_time = 1704276000, end_time = 1704283200,
      duration_hours = 2, prompt_count = 1, sonnet_responses = 1, opus_responses = 0,
      project = ''-home-u-proj''\<rparr>"

text \<open>The same files read on the Sunday night.\<close>

definition sunday_env :: env where
  "sunday_env = demo_env\<lparr>clock := (\<lambda>n. sunday_epoch), datetime_now := sunday_night\<rparr>"

text \<open>
  The project directory with one more entry \<open>x.jsonl\<close>, a symbolic link whose target is
  gone: \<^verbatim>\<open>glob\<close> lists it, and \<^verbatim>\<open>stat\<close> on it raises \<^verbatim>\<open>FileNotFoundError\<close>, an
  \<open>OSError\<close>.
\<close>

definition link_x :: path where
  "link_x = project_u @ [''x.jsonl'']"

definition dangling_env :: env where
  "dangling_env =
     demo_env\<lparr>iterdir := (\<lambda>p. if p = project_u then Inr [file_a, file_b, file_c, link_x]
                                  else iterdir demo_env p),
               glob_jsonl := (\<lambda>p. if p = project_u then [file_a, file_b, file_c, link_x]
                                     else []),
               stat := (\<lambda>p. if p = link_x then Inl OSError else stat demo_env p)\<rparr>"

text \<open>
  A storage root that exists and may be searched but not listed, and in which the working
  project has no directory.
\<close>

definition locked_env :: env where
  "locked_env =
     demo_env\<lparr>path_exists := (\<lambda>p. p = projects_root),
               path_is_dir := (\<lambda>p. p = projects_root),
               iterdir := (\<lambda>p. Inl OSError),
               glob_jsonl := (\<lambda>p. [])\<rparr>"

text \<open>
  A clock that advances four seconds from one reading to the next; and the same files once
  \<open>a.jsonl\<close> has been rewritten and holds the lines of \<open>c.jsonl\<close>.
\<close>

definition ticking_env :: env where
  "ticking_env = demo_env\<lparr>clock := (\<lambda>n. wednesday_epoch + 4 * of_nat n)\<rparr>"

definition rewritten_env :: env where
  "rewritten_env =
     ticking_env\<lparr>read_lines := (\<lambda>p. if p = file_a then (lines_c, None)
                                     else read_lines ticking_env p)\<rparr>"




section \<open>Notions the properties are stated with\<close>

text \<open>
  What the \<open>timestamp\<close> field of a line parses to: \<open>None\<close> when the line is not a JSON
  object, when the field is absent or falsy, or when the parser fails.
\<close>

definition record_timestamp :: "(string \<Rightarrow> rat option) \<Rightarrow> json option \<Rightarrow> rat option" where
  "record_timestamp fromiso line =
     (case line of
        Some (JObj msg) \<Rightarrow> parse_timestamp fromiso (dict_get msg ''timestamp'' JNull)
      | _ \<Rightarrow> None)"







section \<open>Properties of the tracker\<close>

subsection \<open>Strings\<close>

text \<open>The substring test of the model is the contiguous-sublist relation of the library.\<close>

lemma str_contains_sublist: "str_contains sub s = sublist sub s"
  by (induction s) (auto simp: sublist_Cons_right)

subsection \<open>Model families\<close>

lemma count_response_cases:
  "count_response msg a = Inr a' \<Longrightarrow>
     a' = a \<or> a' = a\<lparr>opus_count := opus_count a + 1\<rparr>
     \<or> a' = a\<lparr>sonnet_count := sonnet_count a + 1\<rparr>"
  by (auto simp: count_response_def split: if_splits sum.splits json.splits)

lemma count_record_assistant:
  "dict_get msg ''type'' JNull = JStr ''assistant'' \<Longrightarrow>
     count_record msg a = count_response msg a"
  by (simp add: count_record_def)

lemma collect_timestamp_counts:
  "opus_count (collect_timestamp f msg a) = opus_count a"
  "sonnet_count (collect_timestamp f msg a) = sonnet_count a"
  "prompts (collect_timestamp f msg a) = prompts a"
  by (auto simp: collect_timestamp_def Let_def split: option.splits)

text \<open>
  Claim C10. Processing a record of type \<open>assistant\<close> leaves both family counters as they
  were or adds one to exactly one of them; and when the model identifier, lowercased,
  contains both \<open>opus\<close> and \<open>sonnet\<close>, it is the opus counter that gets the one and the
  sonnet counter stays.
\<close>

theorem assistant_record_one_family:
  assumes "dict_get msg ''type'' JNull = JStr ''assistant''"
  shows "(let a' = process_line fromiso (Some (JObj msg)) a in
           ((opus_count a' = opus_count a \<and> sonnet_count a' = sonnet_count a)
            \<or> (opus_count a' = opus_count a + 1 \<and> sonnet_count a' = sonnet_count a)
            \<or> (opus_count a' = opus_count a \<and> sonnet_count a' = sonnet_count a + 1))
           \<and> (\<forall>m. py_get (dict_get msg ''message'' (JObj [])) ''model'' (JStr []) = Inr (JStr m)
                    \<and> sublist ''opus'' (lower m) \<and> sublist ''sonnet'' (lower m)
                  \<longrightarrow> opus_count a' = opus_count a + 1 \<and> sonnet_count a' = sonnet_count a))"
proof -
  let ?a1 = "collect_timestamp fromiso msg a"
  have rec: "count_record msg ?a1 = count_response msg ?a1"
    using assms by (rule count_record_assistant)
  show ?thesis
  proof (cases "count_response msg ?a1")
    case (Inl err)
    then have "process_line fromiso (Some (JObj msg)) a = ?a1"
      by (simp add: process_line_def rec)
    moreover have "\<And>m. py_get (dict_get msg ''message'' (JObj [])) ''model'' (JStr [])
                          = Inr (JStr m) \<Longrightarrow> False"
      using Inl assms by (auto simp: count_response_def split: if_splits)
    ultimately show ?thesis
      by (auto simp: collect_timestamp_counts)
  next
    case (Inr a2)
    then have pl: "process_line fromiso (Some (JObj msg)) a = a2"
      by (simp add: process_line_def rec)
    from count_response_cases [OF Inr]
    have one: "(opus_count a2 = opus_count a \<and> sonnet_count a2 = sonnet_count a)
            \<or> (opus_count a2 = opus_count a + 1 \<and> sonnet_count a2 = sonnet_count a)
            \<or> (opus_count a2 = opus_count a \<and> sonnet_count a2 = sonnet_count a + 1)"
      by (auto simp: collect_timestamp_counts)
    have both: "opus_count a2 = opus_count a + 1 \<and> sonnet_count a2 = sonnet_count a"
      if "py_get (dict_get msg ''message'' (JObj [])) ''model'' (JStr []) = Inr (JStr m)"
        and "sublist ''opus'' (lower m)" for m
      using that Inr assms
      by (auto simp: count_response_def str_contains_sublist collect_timestamp_counts)
    show ?thesis
      unfolding pl Let_def using one both by blast
  qed
qed

lemma opus_in_both: "sublist ''opus'' (lower ''Opus-or-Sonnet'')"
  by (simp add: str_contains_sublist [symmetric] lower_def lower_char_def)

lemma sonnet_in_both: "sublist ''sonnet'' (lower ''Opus-or-Sonnet'')"
  by (simp add: str_contains_sublist [symmetric] lower_def lower_char_def)

theorem assistant_record_one_family_witness:
  "dict_get opus_sonnet_record ''type'' JNull = JStr ''assistant''
   \<and> sublist ''opus'' (lower ''Opus-or-Sonnet'') \<and> sublist ''sonnet'' (lower ''Opus-or-Sonnet'')
   \<and> opus_count (process_line iso_epoch (Some (JObj opus_sonnet_record)) tally0) = 1
   \<and> sonnet_count (process_line iso_epoch (Some (JObj opus_sonnet_record)) tally0) = 0"
proof -
  have ty: "dict_get opus_sonnet_record ''type'' JNull = JStr ''assistant''"
    by (simp add: opus_sonnet_record_def dict_get_def)
  have model: "py_get (dict_get opus_sonnet_record ''message'' (JObj [])) ''model'' (JStr [])
                 = Inr (JStr ''Opus-or-Sonnet'')"
    by (simp add: opus_sonnet_record_def dict_get_def)
  from assistant_record_one_family [OF ty, of iso_epoch tally0] model
    opus_in_both sonnet_in_both
  have "opus_count (process_line iso_epoch (Some (JObj opus_sonnet_record)) tally0)
          = opus_count tally0 + 1
      \<and> sonnet_count (process_line iso_epoch (Some (JObj opus_sonnet_record)) tally0)
          = sonnet_count tally0"
    unfolding Let_def by blast
  then show ?thesis using ty opus_in_both sonnet_in_both by (simp add: tally0_def)
qed

subsection \<open>Weekly hours per model family\<close>

text \<open>The two shares of one step of the loop.\<close>

lemma add_hours_split:
  assumes "0 < sonnet_responses s + opus_responses s"
  shows "(fst (add_hours s (sonnet_hours, opus_hours)) - sonnet_hours)
         + (snd (add_hours s (sonnet_hours, opus_hours)) - opus_hours) = duration_hours s"
proof -
  define a where "a = (of_nat (sonnet_responses s) :: rat)"
  define b where "b = (of_nat (opus_responses s) :: rat)"
  define d where "d = duration_hours s"
  have "(0::rat) < of_nat (sonnet_responses s + opus_responses s)"
    using assms by (simp only: of_nat_0_less_iff)
  then have pos: "a + b \<noteq> 0" by (simp add: a_def b_def)
  have step: "add_hours s (sonnet_hours, opus_hours)
              = (sonnet_hours + d * (a / (a + b)), opus_hours + d * (b / (a + b)))"
    using assms by (simp add: add_hours_def Let_def a_def b_def d_def)
  have "d * (a / (a + b)) + d * (b / (a + b)) = d * ((a + b) / (a + b))"
    by (simp only: add_divide_distrib distrib_left)
  also have "\<dots> = d" using pos by simp
  finally have "d * (a / (a + b)) + d * (b / (a + b)) = d" .
  then show ?thesis by (simp add: step d_def)
qed

text \<open>
  Claim C5. For a session of the week with at least one attributed response, what the loop
  adds to the sonnet total and what it adds to the opus total sum to the duration of the
  session. The hours are rationals here, so the equation is exact; it is the equation
  before the rounding to two decimals.
\<close>

theorem session_split_sums_to_duration:
  assumes "0 < sonnet_responses s + opus_responses s"
  shows "(fst (add_hours s (sonnet_hours, opus_hours)) - sonnet_hours)
         + (snd (add_hours s (sonnet_hours, opus_hours)) - opus_hours) = duration_hours s"
  using assms by (rule add_hours_split)

theorem session_split_sums_to_duration_witness:
  "0 < sonnet_responses mixed_session + opus_responses mixed_session
   \<and> add_hours mixed_session (0, 0) = (3 / 2, 1 / 2)
   \<and> (fst (add_hours mixed_session (0, 0)) - 0) + (snd (add_hours mixed_session (0, 0)) - 0) = 2"
proof -
  have h: "0 < sonnet_responses mixed_session + opus_responses mixed_session"
    by (simp add: mixed_session_def)
  have v: "add_hours mixed_session (0, 0) = (3 / 2, 1 / 2)"
    by (simp add: add_hours_def mixed_session_def)
  from session_split_sums_to_duration [OF h, of 0 0] h v show ?thesis
    by (simp add: mixed_session_def)
qed

text \<open>Over the whole loop: the two totals sum to the hours of the attributed sessions.\<close>

lemma fold_add_hours_sum:
  "fst (fold add_hours ws acc) + snd (fold add_hours ws acc)
   = fst acc + snd acc
     + sum_list (map duration_hours
         (filter (\<lambda>s. 0 < sonnet_responses s + opus_responses s) ws))"
proof (induction ws arbitrary: acc)
  case Nil
  then show ?case by simp
next
  case (Cons s ws)
  obtain sh oh where acc: "acc = (sh, oh)" by (cases acc)
  show ?case
  proof (cases "0 < sonnet_responses s + opus_responses s")
    case True
    from add_hours_split [OF True, of sh oh]
    have "fst (add_hours s acc) + snd (add_hours s acc) = sh + oh + duration_hours s"
      by (simp add: acc)
    with True show ?thesis by (simp add: Cons.IH acc)
  next
    case False
    then have "add_hours s acc = acc" by (simp add: add_hours_def acc)
    with False show ?thesis by (simp add: Cons.IH)
  qed
qed

lemma model_hours_sum:
  "fst (model_hours ws) + snd (model_hours ws)
   = sum_list (map duration_hours
       (filter (\<lambda>s. 0 < sonnet_responses s + opus_responses s) ws))"
  by (simp add: model_hours_def fold_add_hours_sum)

subsection \<open>What a run leaves of the tracker as it was made\<close>

text \<open>
  The analyzer and the estimator write the cache, its time and the count of clock readings;
  the two window boundaries and the storage root stay as \<^verbatim>\<open>__init__\<close> set them.
\<close>

lemma time_time_keeps:
  "week_start (snd (time_time e tr)) = week_start tr"
  "cycle_5h_start (snd (time_time e tr)) = cycle_5h_start tr"
  "claude_projects (snd (time_time e tr)) = claude_projects tr"
  by (simp_all add: time_time_def)

lemma analyze_miss_keeps:
  "week_start (snd (analyze_miss e p tr)) = week_start tr"
  "cycle_5h_start (snd (analyze_miss e p tr)) = cycle_5h_start tr"
  "claude_projects (snd (analyze_miss e p tr)) = claude_projects tr"
  by (simp_all add: analyze_miss_def time_time_def Let_def)

lemma analyze_jsonl_file_keeps:
  "week_start (snd (analyze_jsonl_file e p tr)) = week_start tr"
  "cycle_5h_start (snd (analyze_jsonl_file e p tr)) = cycle_5h_start tr"
  "claude_projects (snd (analyze_jsonl_file e p tr)) = claude_projects tr"
  by (simp_all add: analyze_jsonl_file_def analyze_miss_keeps time_time_def Let_def
      split: option.splits)

lemma analyze_files_keeps:
  "week_start (snd (analyze_files e files (ss, tr))) = week_start tr
   \<and> cycle_5h_start (snd (analyze_files e files (ss, tr))) = cycle_5h_start tr
   \<and> claude_projects (snd (analyze_files e files (ss, tr))) = claude_projects tr"
proof (induction files arbitrary: ss tr)
  case Nil
  then show ?case by simp
next
  case (Cons f files)
  obtain s tr1 where a: "analyze_jsonl_file e f tr = (s, tr1)"
    by (cases "analyze_jsonl_file e f tr")
  have "week_start tr1 = week_start tr \<and> cycle_5h_start tr1 = cycle_5h_start tr
        \<and> claude_projects tr1 = claude_projects tr"
    using analyze_jsonl_file_keeps [of e f tr] by (simp add: a)
  then show ?case by (simp add: a Cons.IH)
qed

lemma scan_projects_keeps:
  "week_start (snd (scan_projects e dirs st)) = week_start (snd st)
   \<and> cycle_5h_start (snd (scan_projects e dirs st)) = cycle_5h_start (snd st)
   \<and> claude_projects (snd (scan_projects e dirs st)) = claude_projects (snd st)"
proof (induction dirs arbitrary: st)
  case Nil
  then show ?case by simp
next
  case (Cons d dirs)
  obtain ss tr where st: "st = (ss, tr)" by (cases st)
  show ?case using analyze_files_keeps [of e "glob_jsonl e d" ss tr]
    by (simp add: Cons.IH st)
qed

lemma get_all_sessions_keeps:
  assumes "get_all_sessions e tr = Inr (ss, tr')"
  shows "week_start tr' = week_start tr \<and> cycle_5h_start tr' = cycle_5h_start tr
         \<and> claude_projects tr' = claude_projects tr"
proof (cases "path_exists e (claude_projects tr)")
  case False
  with assms show ?thesis by (simp add: get_all_sessions_def)
next
  case True
  with assms obtain dirs where "scan_projects e dirs ([], tr) = (ss, tr')"
    by (cases "iterdir e (claude_projects tr)") (simp_all add: get_all_sessions_def)
  then show ?thesis using scan_projects_keeps [of e dirs "([], tr)"] by simp
qed

lemma recent_dirs_loop_keeps:
  "recent_dirs_loop e pdirs (rd, tr) = Inr (rd', tr') \<Longrightarrow>
     week_start tr' = week_start tr \<and> cycle_5h_start tr' = cycle_5h_start tr"
proof (induction pdirs arbitrary: rd tr)
  case Nil
  then show ?case by simp
next
  case (Cons d pdirs)
  show ?case
  proof (cases "path_is_dir e d \<and> \<not> prefix ''.'' (path_name d) \<and> glob_jsonl e d \<noteq> []")
    case False
    then have "recent_dirs_loop e (d # pdirs) (rd, tr) = recent_dirs_loop e pdirs (rd, tr)"
      by (auto simp: Let_def)
    with Cons show ?thesis by simp
  next
    case True
    with Cons.prems obtain rd1 where
      "recent_dirs_loop e pdirs (rd1, snd (time_time e tr)) = Inr (rd', tr')"
      by (auto simp: Let_def time_time_def split: sum.splits if_splits)
    from Cons.IH [OF this] show ?thesis by (simp add: time_time_keeps)
  qed
qed

lemma resolve_project_dir_keeps:
  assumes "resolve_project_dir e pp tr = Inr (d, tr')"
  shows "week_start tr' = week_start tr \<and> cycle_5h_start tr' = cycle_5h_start tr"
proof -
  from assms have "tr' = tr \<or> (\<exists>pdirs rd. recent_dirs_loop e pdirs ([], tr) = Inr (rd, tr'))"
    by (auto simp: resolve_project_dir_def Let_def split: if_splits sum.splits prod.splits)
  then show ?thesis using recent_dirs_loop_keeps by blast
qed

lemma estimate_context_usage_keeps:
  assumes "estimate_context_usage e pp tr = Inr (c, tr')"
  shows "week_start tr' = week_start tr \<and> cycle_5h_start tr' = cycle_5h_start tr"
proof -
  from assms obtain d where
    "resolve_project_dir e (case pp of None \<Rightarrow> getcwd e | Some x \<Rightarrow> x) tr = Inr (d, tr')"
    by (auto simp: estimate_context_usage_def Let_def split: sum.splits prod.splits if_splits)
  then show ?thesis by (rule resolve_project_dir_keeps)
qed

text \<open>What \<^verbatim>\<open>calculate_usage\<close> returns is the summary of the sessions found.\<close>

lemma calculate_usage_summary:
  assumes "calculate_usage e tr = Inr (u, tr')"
  shows "\<exists>ss tr1 c now. get_all_sessions e tr = Inr (ss, tr1) \<and> u = summarize e tr' ss c now
           \<and> week_start tr' = week_start tr \<and> cycle_5h_start tr' = cycle_5h_start tr"
proof -
  obtain ss tr1 where g: "get_all_sessions e tr = Inr (ss, tr1)"
    using assms by (cases "get_all_sessions e tr") (auto simp: calculate_usage_def)
  obtain c tr2 where c: "estimate_context_usage e None tr1 = Inr (c, tr2)"
    using assms g
    by (cases "estimate_context_usage e None tr1") (auto simp: calculate_usage_def)
  have r: "calculate_usage e tr
           = Inr (summarize e (snd (time_time e tr2)) ss c (fst (time_time e tr2)),
                  snd (time_time e tr2))"
    by (simp add: calculate_usage_def g c Let_def split: prod.splits)
  from assms r have t: "tr' = snd (time_time e tr2)"
    by simp
  from assms r have u: "u = summarize e tr' ss c (fst (time_time e tr2))"
    unfolding t by simp
  from get_all_sessions_keeps [OF g] estimate_context_usage_keeps [OF c] t
  have "week_start tr' = week_start tr \<and> cycle_5h_start tr' = cycle_5h_start tr"
    by (simp add: time_time_keeps)
  with g u show ?thesis by blast
qed

lemma summarize_windows:
  "weekly_start (summarize e tr ss c now) = week_start tr
   \<and> current_5h_start (summarize e tr ss c now) = cycle_5h_start tr"
  by (simp add: summarize_def Let_def split: prod.splits)

subsection \<open>Window boundaries\<close>

lemma weekday_monday_midnight: "weekday (monday_midnight now) = 0"
proof -
  have "(date_ordinal now - (date_ordinal now + 6) mod 7 + 6) mod 7 = 0"
    by presburger
  then show ?thesis
    by (simp add: monday_midnight_def weekday_def minus_days_def Let_def)
qed

lemma monday_midnight_fields:
  "hour (monday_midnight now) = 0 \<and> minute (monday_midnight now) = 0
   \<and> second (monday_midnight now) = 0 \<and> microsecond (monday_midnight now) = 0"
  by (simp add: monday_midnight_def Let_def minus_days_def)

lemma local_seconds_midnight:
  assumes "hour m = 0" "minute m = 0" "second m = 0" "microsecond m = 0"
  shows "local_seconds m = of_int ((date_ordinal m - 719163) * 86400)"
  using assms by (simp add: local_seconds_def)

lemma local_seconds_monday_midnight:
  "local_seconds (monday_midnight now)
   = of_int ((date_ordinal now - weekday now - 719163) * 86400)"
  by (simp add: local_seconds_def monday_midnight_def minus_days_def Let_def)

lemma local_seconds_bounds:
  assumes "hour now < 24" "minute now < 60" "second now < 60" "microsecond now < 1000000"
  shows "of_int ((date_ordinal now - 719163) * 86400) \<le> local_seconds now"
    and "local_seconds now < of_int ((date_ordinal now - 719163) * 86400 + 86400)"
proof -
  have "(0::rat) \<le> of_nat (microsecond now) / 1000000" by simp
  moreover have "(of_int ((date_ordinal now - 719163) * 86400) :: rat)
        \<le> of_int ((date_ordinal now - 719163) * 86400
             + int (hour now) * 3600 + int (minute now) * 60 + int (second now))"
    by simp
  ultimately show "of_int ((date_ordinal now - 719163) * 86400) \<le> local_seconds now"
    unfolding local_seconds_def by linarith
  have "int (hour now) * 3600 + int (minute now) * 60 + int (second now) + 1 \<le> 86400"
    using assms by simp
  then have "(date_ordinal now - 719163) * 86400
             + int (hour now) * 3600 + int (minute now) * 60 + int (second now) + 1
        \<le> (date_ordinal now - 719163) * 86400 + 86400"
    by simp
  then have "(of_int ((date_ordinal now - 719163) * 86400
             + int (hour now) * 3600 + int (minute now) * 60 + int (second now) + 1) :: rat)
        \<le> of_int ((date_ordinal now - 719163) * 86400 + 86400)"
    by (simp only: of_int_le_iff)
  moreover have "(of_nat (microsecond now) :: rat) / 1000000 < 1"
    using assms(4) by simp
  ultimately show "local_seconds now < of_int ((date_ordinal now - 719163) * 86400 + 86400)"
    unfolding local_seconds_def by simp
qed

lemma monday_midnight_le_now:
  assumes "hour now < 24" "minute now < 60" "second now < 60" "microsecond now < 1000000"
  shows "local_seconds (monday_midnight now) \<le> local_seconds now"
proof -
  have "0 \<le> weekday now" by (simp add: weekday_def)
  then have "(date_ordinal now - weekday now - 719163) * 86400
             \<le> (date_ordinal now - 719163) * 86400"
    by simp
  then have "(of_int ((date_ordinal now - weekday now - 719163) * 86400) :: rat)
             \<le> of_int ((date_ordinal now - 719163) * 86400)"
    by (simp only: of_int_le_iff)
  with local_seconds_bounds(1) [OF assms] show ?thesis
    unfolding local_seconds_monday_midnight by linarith
qed

lemma monday_midnight_latest:
  assumes "hour now < 24" "minute now < 60" "second now < 60" "microsecond now < 1000000"
    and "weekday m = 0" "hour m = 0" "minute m = 0" "second m = 0" "microsecond m = 0"
    and "local_seconds m \<le> local_seconds now"
  shows "local_seconds m \<le> local_seconds (monday_midnight now)"
proof -
  have "(of_int ((date_ordinal m - 719163) * 86400) :: rat)
        < of_int ((date_ordinal now - 719163) * 86400 + 86400)"
    using local_seconds_bounds(2) [OF assms(1-4)] assms(10)
      local_seconds_midnight [OF assms(6-9)] by linarith
  then have "(date_ordinal m - 719163) * 86400 < (date_ordinal now - 719163) * 86400 + 86400"
    by (simp only: of_int_less_iff)
  then have "date_ordinal m \<le> date_ordinal now" by simp
  moreover have "(date_ordinal m + 6) mod 7 = 0" using assms(5) by (simp add: weekday_def)
  ultimately have "date_ordinal m \<le> date_ordinal now - (date_ordinal now + 6) mod 7"
    by presburger
  then have "(date_ordinal m - 719163) * 86400
             \<le> (date_ordinal now - weekday now - 719163) * 86400"
    by (simp add: weekday_def)
  then have "(of_int ((date_ordinal m - 719163) * 86400) :: rat)
             \<le> of_int ((date_ordinal now - weekday now - 719163) * 86400)"
    by (simp only: of_int_le_iff)
  then show ?thesis
    unfolding local_seconds_monday_midnight local_seconds_midnight [OF assms(6-9)] .
qed

lemma week_start_instant:
  assumes "of_int (o_now - offset (monday_midnight now))
           \<le> local_seconds now - local_seconds (monday_midnight now)"
  shows "get_week_start offset now \<le> local_seconds now - of_int o_now"
  using assms by (simp add: get_week_start_def timestamp_def)

lemma cycle_start_floor:
  assumes "0 \<le> t"
  shows "get_5h_cycle_start t = of_int (\<lfloor>t / 3600 / 5\<rfloor> * 5 * 3600)"
  using assms by (simp add: get_5h_cycle_start_def py_int_def Let_def)

lemma floor_cycle_bounds:
  "of_int (\<lfloor>t / 3600 / 5\<rfloor> * 5 * 3600) \<le> (t::rat)
   \<and> t < of_int (\<lfloor>t / 3600 / 5\<rfloor> * 5 * 3600) + 5 * 3600"
proof -
  define q where "q = t / 3600 / 5"
  have t: "t = q * 18000" by (simp add: q_def)
  have lo: "of_int \<lfloor>q\<rfloor> \<le> q" and hi: "q < of_int \<lfloor>q\<rfloor> + 1" by linarith+
  have "of_int \<lfloor>q\<rfloor> * 18000 \<le> q * 18000" using lo by simp
  moreover have "q * 18000 < (of_int \<lfloor>q\<rfloor> + 1) * 18000" using hi by simp
  ultimately show ?thesis unfolding q_def [symmetric] t by (simp add: algebra_simps)
qed

lemma floor_cycle_latest:
  assumes "of_int (k * 5 * 3600) \<le> (t::rat)"
  shows "(of_int (k * 5 * 3600) :: rat) \<le> of_int (\<lfloor>t / 3600 / 5\<rfloor> * 5 * 3600)"
proof -
  have "(of_int k :: rat) * 18000 \<le> t" using assms by simp
  then have "(of_int k :: rat) \<le> t / 3600 / 5" by simp
  then have "k \<le> \<lfloor>t / 3600 / 5\<rfloor>" by (simp add: le_floor_iff)
  then have "k * 5 * 3600 \<le> \<lfloor>t / 3600 / 5\<rfloor> * 5 * 3600" by simp
  then show ?thesis by (simp only: of_int_le_iff)
qed

subsection \<open>The example environment\<close>

lemma demo_paths:
  "file_a \<noteq> file_b" "file_a \<noteq> file_c" "file_b \<noteq> file_c"
  "file_b \<noteq> file_a" "file_c \<noteq> file_a" "file_c \<noteq> file_b"
  "file_a \<noteq> project_u" "file_b \<noteq> project_u" "file_c \<noteq> project_u"
  "file_a \<noteq> projects_root" "file_b \<noteq> projects_root" "file_c \<noteq> projects_root"
  "project_u \<noteq> projects_root" "projects_root \<noteq> project_u"
  by (simp_all add: file_a_def file_b_def file_c_def project_u_def projects_root_def)

lemma demo_root:
  "claude_projects (init_tracker demo_env) = projects_root"
  "claude_projects (init_tracker sunday_env) = projects_root"
  "cache (init_tracker demo_env) = Map.empty"
  by (simp_all add: init_tracker_def demo_env_def sunday_env_def joinpath_def projects_root_def)

lemma demo_project_dir:
  "joinpath projects_root (replace_char CHR ''/'' ''-'' (getcwd demo_env)) = project_u"
  "joinpath projects_root (replace_char CHR ''/'' ''-'' (getcwd sunday_env)) = project_u"
  by (simp_all add: demo_env_def sunday_env_def joinpath_def replace_char_def project_u_def)

lemma demo_listing:
  "path_exists demo_env projects_root" "path_exists demo_env project_u"
  "iterdir demo_env projects_root = Inr [project_u]"
  "path_is_dir demo_env project_u"
  "glob_jsonl demo_env project_u = [file_a, file_b, file_c]"
  by (simp_all add: demo_env_def demo_paths)

lemma demo_stat:
  "stat demo_env file_a = Inr \<lparr>st_mtime = 1704290000, st_size = 900\<rparr>"
  "stat demo_env file_b = Inr \<lparr>st_mtime = 1704292000, st_size = 600\<rparr>"
  "stat demo_env file_c = Inr \<lparr>st_mtime = 1704280000, st_size = 700\<rparr>"
  by (simp_all add: demo_env_def demo_paths)

lemma demo_read:
  "read_lines demo_env file_a = (lines_a, None)"
  "read_lines demo_env file_b = (lines_b, None)"
  "read_lines demo_env file_c = (lines_c, None)"
  "fromisoformat_timestamp demo_env = iso_epoch"
  by (simp_all add: demo_env_def demo_paths)

lemma demo_latest: "max_by (mtime_of demo_env) [file_a, file_b, file_c] = Inr file_b"
  by (simp add: mtime_of_def demo_stat)

text \<open>The Sunday environment has the files of the example environment.\<close>

lemma sunday_files:
  "path_exists sunday_env = path_exists demo_env"
  "path_is_dir sunday_env = path_is_dir demo_env"
  "iterdir sunday_env = iterdir demo_env"
  "glob_jsonl sunday_env = glob_jsonl demo_env"
  "stat sunday_env = stat demo_env"
  "read_lines sunday_env = read_lines demo_env"
  by (simp_all add: sunday_env_def)

lemma sunday_latest: "max_by (mtime_of sunday_env) [file_a, file_b, file_c] = Inr file_b"
  by (simp add: mtime_of_def sunday_files demo_stat)

text \<open>The timestamps of the example transcripts.\<close>

lemma iso_epoch_values:
  "iso_epoch ''2024-01-03T10:00:00+00:00'' = Some 1704276000"
  "iso_epoch ''2024-01-03T12:00:00+00:00'' = Some 1704283200"
  "iso_epoch ''1970-01-01T00:00:00+00:00'' = Some 0"
  "iso_epoch ''yesterday'' = None"
  by code_simp+

lemma parse_timestamp_values:
  "parse_timestamp iso_epoch (JStr ''2024-01-03T10:00:00.000Z'') = Some 1704276000"
  "parse_timestamp iso_epoch (JStr ''2024-01-03T12:00:00.000Z'') = Some 1704283200"
  "parse_timestamp iso_epoch (JStr ''1970-01-01T00:00:00.000Z'') = Some 0"
  "parse_timestamp iso_epoch (JStr ''yesterday'') = None"
  "parse_timestamp iso_epoch JNull = None"
  by (simp_all add: parse_timestamp_def clean_ts_def replace_char_def iso_epoch_values)

lemma user_record_counted:
  "count_record [(''type'', JStr ''user''), (''timestamp'', ts),
       (''message'', JObj [(''role'', JStr ''user''), (''content'', JStr ''hello'')]),
       (''isMeta'', JBool False), (''userType'', JStr ''external'')] a
   = Inr (a\<lparr>prompts := prompts a + 1\<rparr>)"
  by (simp add: count_record_def dict_get_def is_command_message_def)

lemma assistant_record_counted:
  "count_record [(''type'', JStr ''assistant''), (''timestamp'', ts),
       (''message'', JObj [(''role'', JStr ''assistant''), (''model'', JStr ''claude-sonnet-4''),
                           (''content'', c)])] a
   = Inr (a\<lparr>sonnet_count := sonnet_count a + 1\<rparr>)"
  "count_record [(''type'', JStr ''assistant''), (''timestamp'', ts),
       (''message'', JObj [(''role'', JStr ''assistant''), (''model'', JStr ''claude-opus-4''),
                           (''content'', c)])] a
   = Inr (a\<lparr>opus_count := opus_count a + 1\<rparr>)"
  by (simp_all add: count_record_def count_response_def dict_get_def lower_def lower_char_def)

lemma demo_scan_a:
  "scan_file demo_env file_a
   = \<lparr>timestamps = [1704276000, 1704283200], prompts = 1, sonnet_count = 1, opus_count = 0\<rparr>"
  by (simp add: scan_file_def demo_read lines_a_def process_line_def collect_timestamp_def
      user_record_def assistant_record_def user_record_counted assistant_record_counted
      parse_timestamp_values tally0_def dict_get_def)

lemma demo_scan_b:
  "scan_file demo_env file_b
   = \<lparr>timestamps = [], prompts = 1, sonnet_count = 0, opus_count = 0\<rparr>"
  by (simp add: scan_file_def demo_read lines_b_def process_line_def collect_timestamp_def
      user_record_def user_record_counted parse_timestamp_values tally0_def dict_get_def)

lemma demo_scan_c:
  "scan_file demo_env file_c
   = \<lparr>timestamps = [], prompts = 1, sonnet_count = 0, opus_count = 1\<rparr>"
  by (simp add: scan_file_def demo_read lines_c_def process_line_def collect_timestamp_def
      user_record_def assistant_record_def user_record_counted assistant_record_counted
      parse_timestamp_values tally0_def dict_get_def)

lemma demo_session_a: "make_session file_a (scan_file demo_env file_a) = session_a"
  unfolding demo_scan_a
  by (simp add: make_session_def session_a_def path_stem_def path_name_def
      path_parent_def file_a_def project_u_def projects_root_def Let_def)

subsection \<open>Runs that return\<close>

lemma get_all_sessions_listed:
  assumes "path_exists e (claude_projects tr)" "iterdir e (claude_projects tr) = Inr dirs"
  shows "get_all_sessions e tr = Inr (scan_projects e dirs ([], tr))"
  using assms by (simp add: get_all_sessions_def)

lemma estimate_in_project:
  assumes "path_exists e (joinpath (claude_projects tr) (replace_char CHR ''/'' ''-'' (getcwd e)))"
    and "max_by (mtime_of e)
           (glob_jsonl e (joinpath (claude_projects tr) (replace_char CHR ''/'' ''-'' (getcwd e))))
         = Inr f"
  shows "estimate_context_usage e None tr = Inr (read_context e f, tr)"
proof -
  have r: "resolve_project_dir e (getcwd e) tr
           = Inr (joinpath (claude_projects tr) (replace_char CHR ''/'' ''-'' (getcwd e)), tr)"
    using assms(1) by (simp add: resolve_project_dir_def Let_def)
  have "glob_jsonl e (joinpath (claude_projects tr) (replace_char CHR ''/'' ''-'' (getcwd e)))
        \<noteq> []"
    using assms(2) by auto
  then show ?thesis using assms by (simp add: estimate_context_usage_def r Let_def)
qed

lemma calculate_usage_returns:
  assumes "get_all_sessions e tr = Inr (ss, tr1)"
    and "estimate_context_usage e None tr1 = Inr (c, tr2)"
  shows "calculate_usage e tr
         = Inr (summarize e (snd (time_time e tr2)) ss c (fst (time_time e tr2)),
                snd (time_time e tr2))"
  using assms by (simp add: calculate_usage_def Let_def split: prod.splits)

text \<open>
  Claim C7. The tracker is made by \<^verbatim>\<open>__init__\<close> in the environment \<open>e\<close>; the current time
  is the reading \<open>datetime_now e\<close> of \<^verbatim>\<open>datetime.now()\<close> (a valid time of day) for the week
  and the reading \<open>clock e 0\<close> of \<^verbatim>\<open>time.time()\<close>, not before the epoch, for the cycle.
  The offset of local time from UTC is what the zone gives for each date.
  \<^item> The week start is the timestamp of \<open>m\<close>, a Monday at 00:00:00 local time; \<open>m\<close> is at or
    before the current local time, and every Monday at local midnight that is at or before
    the current local time is at or before \<open>m\<close>: it is the most recent one.
  \<^item> As an instant the week start is at or before the current time, whose offset is
    \<open>o_now\<close>, unless the offset has grown since \<open>m\<close> by more than the local time elapsed.
  \<^item> The cycle start is \<open>floor (t / 3600 / 5) * 5 * 3600\<close>; it is at or before \<open>t\<close>, less
    than five hours before it, and every multiple of five hours at or before \<open>t\<close> is at or
    before the cycle start.
  \<^item> These are the boundaries \<^verbatim>\<open>calculate_usage\<close> reports and still holds afterwards.
\<close>

theorem window_boundaries:
  assumes "hour (datetime_now e) < 24" "minute (datetime_now e) < 60"
    "second (datetime_now e) < 60" "microsecond (datetime_now e) < 1000000"
    and "0 \<le> clock e 0"
  shows "(let tr = init_tracker e; now = datetime_now e; t = clock e 0;
              m = monday_midnight now in
            week_start tr = timestamp (utcoffset e) m
          \<and> weekday m = 0
          \<and> hour m = 0 \<and> minute m = 0 \<and> second m = 0 \<and> microsecond m = 0
          \<and> local_seconds m \<le> local_seconds now
          \<and> (\<forall>m'. weekday m' = 0 \<and> hour m' = 0 \<and> minute m' = 0 \<and> second m' = 0
                   \<and> microsecond m' = 0 \<and> local_seconds m' \<le> local_seconds now
                 \<longrightarrow> local_seconds m' \<le> local_seconds m)
          \<and> (\<forall>o_now. of_int (o_now - utcoffset e m) \<le> local_seconds now - local_seconds m
                 \<longrightarrow> week_start tr \<le> local_seconds now - of_int o_now)
          \<and> cycle_5h_start tr = of_int (\<lfloor>t / 3600 / 5\<rfloor> * 5 * 3600)
          \<and> cycle_5h_start tr \<le> t
          \<and> t < cycle_5h_start tr + 5 * 3600
          \<and> (\<forall>k. of_int (k * 5 * 3600) \<le> t \<longrightarrow> of_int (k * 5 * 3600) \<le> cycle_5h_start tr)
          \<and> (\<forall>u tr'. calculate_usage e tr = Inr (u, tr')
                 \<longrightarrow> weekly_start u = week_start tr \<and> current_5h_start u = cycle_5h_start tr
                     \<and> week_start tr' = week_start tr
                     \<and> cycle_5h_start tr' = cycle_5h_start tr))"
proof -
  let ?tr = "init_tracker e" and ?now = "datetime_now e" and ?t = "clock e 0"
  let ?m = "monday_midnight ?now"
  have week: "week_start ?tr = timestamp (utcoffset e) ?m"
    by (simp add: init_tracker_def get_week_start_def)
  have latest: "\<forall>m'. weekday m' = 0 \<and> hour m' = 0 \<and> minute m' = 0 \<and> second m' = 0
                   \<and> microsecond m' = 0 \<and> local_seconds m' \<le> local_seconds ?now
                 \<longrightarrow> local_seconds m' \<le> local_seconds ?m"
    using monday_midnight_latest [OF assms(1-4)] by blast
  have inst: "\<forall>o_now. of_int (o_now - utcoffset e ?m) \<le> local_seconds ?now - local_seconds ?m
                 \<longrightarrow> week_start ?tr \<le> local_seconds ?now - of_int o_now"
    using week_start_instant [of _ "utcoffset e" ?now] by (simp add: init_tracker_def)
  have cyc: "cycle_5h_start ?tr = of_int (\<lfloor>?t / 3600 / 5\<rfloor> * 5 * 3600)"
    using cycle_start_floor [OF assms(5)] by (simp add: init_tracker_def)
  have b: "cycle_5h_start ?tr \<le> ?t \<and> ?t < cycle_5h_start ?tr + 5 * 3600"
    unfolding cyc by (rule floor_cycle_bounds)
  have mult: "\<forall>k. of_int (k * 5 * 3600) \<le> ?t \<longrightarrow> of_int (k * 5 * 3600) \<le> cycle_5h_start ?tr"
    unfolding cyc using floor_cycle_latest by blast
  have use: "\<forall>u tr'. calculate_usage e ?tr = Inr (u, tr')
                 \<longrightarrow> weekly_start u = week_start ?tr \<and> current_5h_start u = cycle_5h_start ?tr
                     \<and> week_start tr' = week_start ?tr
                     \<and> cycle_5h_start tr' = cycle_5h_start ?tr"
  proof (intro allI impI)
    fix u tr'
    assume "calculate_usage e ?tr = Inr (u, tr')"
    from calculate_usage_summary [OF this] obtain ss c now where
      "u = summarize e tr' ss c now" "week_start tr' = week_start ?tr"
      "cycle_5h_start tr' = cycle_5h_start ?tr"
      by blast
    then show "weekly_start u = week_start ?tr \<and> current_5h_start u = cycle_5h_start ?tr
               \<and> week_start tr' = week_start ?tr \<and> cycle_5h_start tr' = cycle_5h_start ?tr"
      using summarize_windows [of e tr' ss c now] by simp
  qed
  show ?thesis
    unfolding Let_def
    using week weekday_monday_midnight [of ?now] monday_midnight_fields [of ?now]
      monday_midnight_le_now [OF assms(1-4)] latest inst cyc b mult use
    by blast
qed

lemma sunday_run_returns:
  "\<exists>u tr'. calculate_usage sunday_env (init_tracker sunday_env) = Inr (u, tr')"
proof -
  obtain ss tr1 where s: "scan_projects sunday_env [project_u] ([], init_tracker sunday_env)
                          = (ss, tr1)"
    by (cases "scan_projects sunday_env [project_u] ([], init_tracker sunday_env)")
  have "get_all_sessions sunday_env (init_tracker sunday_env)
        = Inr (scan_projects sunday_env [project_u] ([], init_tracker sunday_env))"
    by (rule get_all_sessions_listed) (simp_all add: demo_root sunday_files demo_listing)
  then have g: "get_all_sessions sunday_env (init_tracker sunday_env) = Inr (ss, tr1)"
    by (simp only: s)
  from get_all_sessions_keeps [OF g] have root: "claude_projects tr1 = projects_root"
    by (simp add: demo_root)
  have "max_by (mtime_of sunday_env)
          (glob_jsonl sunday_env
             (joinpath (claude_projects tr1) (replace_char CHR ''/'' ''-'' (getcwd sunday_env))))
        = Inr file_b"
    unfolding root demo_project_dir sunday_files demo_listing by (rule sunday_latest)
  then have "estimate_context_usage sunday_env None tr1
        = Inr (read_context sunday_env file_b, tr1)"
    by (rule estimate_in_project [rotated])
       (simp add: root demo_project_dir sunday_files demo_listing)
  from calculate_usage_returns [OF g this] show ?thesis by blast
qed

lemma sunday_cycle: "get_5h_cycle_start sunday_epoch = 1730052000"
  by code_simp

theorem window_boundaries_witness:
  "hour (datetime_now sunday_env) < 24 \<and> minute (datetime_now sunday_env) < 60
   \<and> second (datetime_now sunday_env) < 60 \<and> microsecond (datetime_now sunday_env) < 1000000
   \<and> 0 \<le> clock sunday_env 0
   \<and> datetime_now sunday_env = sunday_night \<and> clock sunday_env 0 = sunday_epoch
   \<and> utcoffset sunday_env (monday_midnight sunday_night) = 7200
   \<and> utcoffset sunday_env sunday_night = 3600
   \<and> local_seconds sunday_night - of_int 3600 = sunday_epoch
   \<and> week_start (init_tracker sunday_env) = 1729461600
   \<and> weekday (monday_midnight sunday_night) = 0
   \<and> local_seconds (monday_midnight sunday_night) \<le> local_seconds sunday_night
   \<and> week_start (init_tracker sunday_env) \<le> sunday_epoch
   \<and> cycle_5h_start (init_tracker sunday_env) = 1730052000
   \<and> cycle_5h_start (init_tracker sunday_env) \<le> sunday_epoch
   \<and> (\<exists>u tr'. calculate_usage sunday_env (init_tracker sunday_env) = Inr (u, tr')
        \<and> weekly_start u = 1729461600 \<and> current_5h_start u = 1730052000)"
proof -
  have now: "datetime_now sunday_env = sunday_night" "clock sunday_env 0 = sunday_epoch"
    by (simp_all add: sunday_env_def)
  have h: "hour (datetime_now sunday_env) < 24" "minute (datetime_now sunday_env) < 60"
    "second (datetime_now sunday_env) < 60" "microsecond (datetime_now sunday_env) < 1000000"
    by (simp_all add: now sunday_night_def)
  have t: "0 \<le> clock sunday_env 0" by (simp add: now sunday_epoch_def)
  have off: "utcoffset sunday_env (monday_midnight sunday_night) = 7200"
    "utcoffset sunday_env sunday_night = 3600"
    by (simp_all add: sunday_env_def demo_env_def cet_2024_def monday_midnight_def weekday_def
        minus_days_def sunday_night_def)
  have inst: "local_seconds sunday_night - of_int 3600 = sunday_epoch"
    by (simp add: local_seconds_def sunday_night_def sunday_epoch_def)
  have ws: "week_start (init_tracker sunday_env) = 1729461600"
    by (simp add: init_tracker_def now get_week_start_def timestamp_def off)
       (simp add: local_seconds_def monday_midnight_def weekday_def minus_days_def
          sunday_night_def)
  have cs: "cycle_5h_start (init_tracker sunday_env) = 1730052000"
    by (simp add: init_tracker_def now sunday_cycle)
  have el: "of_int (3600 - utcoffset sunday_env (monday_midnight sunday_night))
            \<le> local_seconds sunday_night - local_seconds (monday_midnight sunday_night)"
    unfolding off
    by (simp add: local_seconds_def monday_midnight_def weekday_def minus_days_def
        sunday_night_def)
  note wb = window_boundaries [OF h t, unfolded Let_def now]
  from wb el have le: "week_start (init_tracker sunday_env)
                       \<le> local_seconds sunday_night - of_int 3600"
    by blast
  from sunday_run_returns obtain u tr' where
    r: "calculate_usage sunday_env (init_tracker sunday_env) = Inr (u, tr')"
    by blast
  with wb have "weekly_start u = week_start (init_tracker sunday_env)
                \<and> current_5h_start u = cycle_5h_start (init_tracker sunday_env)"
    by blast
  with r have run: "\<exists>u tr'. calculate_usage sunday_env (init_tracker sunday_env) = Inr (u, tr')
        \<and> weekly_start u = 1729461600 \<and> current_5h_start u = 1730052000"
    by (auto simp: ws cs)
  from wb have "weekday (monday_midnight sunday_night) = 0"
    and "local_seconds (monday_midnight sunday_night) \<le> local_seconds sunday_night"
    and "cycle_5h_start (init_tracker sunday_env) \<le> sunday_epoch"
    by blast+
  then show ?thesis using h t now off inst ws cs le run by simp
qed

subsection \<open>Timestamps of a transcript\<close>

lemma count_response_timestamps:
  "count_response msg a = Inr a' \<Longrightarrow> timestamps a' = timestamps a"
  by (auto simp: count_response_def split: if_splits sum.splits json.splits)

lemma count_record_timestamps:
  "count_record msg a = Inr a' \<Longrightarrow> timestamps a' = timestamps a"
  by (auto simp: count_record_def count_response_timestamps split: if_splits sum.splits)

lemma parse_timestamp_falsy: "\<not> truthy ts \<Longrightarrow> parse_timestamp fromiso ts = None"
  by (simp add: parse_timestamp_def)

text \<open>The timestamps one line adds: its own, when it parses to a number other than zero.\<close>

lemma process_line_timestamps:
  "timestamps (process_line fromiso line a)
   = timestamps a @ (case record_timestamp fromiso line of
                       Some epoch \<Rightarrow> if epoch \<noteq> 0 then [epoch] else []
                     | None \<Rightarrow> [])"
proof (cases line)
  case None
  then show ?thesis by (simp add: process_line_def record_timestamp_def)
next
  case (Some j)
  show ?thesis
  proof (cases j)
    case (JObj msg)
    let ?a1 = "collect_timestamp fromiso msg a"
    have c: "timestamps ?a1
             = timestamps a @ (case parse_timestamp fromiso (dict_get msg ''timestamp'' JNull) of
                                 Some epoch \<Rightarrow> if epoch \<noteq> 0 then [epoch] else []
                               | None \<Rightarrow> [])"
      by (cases "truthy (dict_get msg ''timestamp'' JNull)")
         (auto simp: collect_timestamp_def Let_def parse_timestamp_falsy split: option.splits)
    have "timestamps (process_line fromiso line a) = timestamps ?a1"
      using Some JObj
      by (auto simp: process_line_def Let_def count_record_timestamps split: sum.splits)
    then show ?thesis using c Some JObj by (simp add: record_timestamp_def)
  qed (use Some in \<open>simp_all add: process_line_def record_timestamp_def\<close>)
qed

lemma fold_process_line_timestamps:
  "timestamps (fold (process_line fromiso) lines a)
   = timestamps a @ concat (map (\<lambda>line. case record_timestamp fromiso line of
                                          Some epoch \<Rightarrow> if epoch \<noteq> 0 then [epoch] else []
                                        | None \<Rightarrow> []) lines)"
  by (induction lines arbitrary: a) (simp_all add: process_line_timestamps)

lemma no_timestamps_collected:
  assumes "\<forall>line\<in>set lines. record_timestamp fromiso line = None
                             \<or> record_timestamp fromiso line = Some 0"
  shows "timestamps (fold (process_line fromiso) lines tally0) = []"
proof -
  have "concat (map (\<lambda>line. case record_timestamp fromiso line of
                               Some epoch \<Rightarrow> if epoch \<noteq> 0 then [epoch] else []
                             | None \<Rightarrow> []) lines) = []"
    using assms by (induction lines) auto
  then show ?thesis by (simp add: fold_process_line_timestamps tally0_def)
qed

subsection \<open>Sessions without duration\<close>

lemma make_session_no_timestamps:
  "timestamps a = [] \<Longrightarrow>
     start_time (make_session p a) = 0 \<and> end_time (make_session p a) = 0
     \<and> duration_hours (make_session p a) = 0"
  by (simp add: make_session_def)

lemma analyze_miss_session: "fst (analyze_miss e p tr) = make_session p (scan_file e p)"
  by (simp add: analyze_miss_def Let_def split: prod.splits)

lemma analyze_uncached:
  "cache tr p = None \<Longrightarrow> fst (analyze_jsonl_file e p tr) = make_session p (scan_file e p)"
  by (simp add: analyze_jsonl_file_def analyze_miss_session)

lemma analyze_files_skips:
  "duration_hours (fst (analyze_jsonl_file e p tr)) = 0 \<Longrightarrow>
     fst (analyze_files e [p] (ss, tr)) = ss"
  by (cases "analyze_jsonl_file e p tr") simp

subsection \<open>What the aggregator keeps\<close>

lemma analyze_miss_cache:
  "cache (snd (analyze_miss e p tr)) = (cache tr)(p \<mapsto> make_session p (scan_file e p))"
  by (simp add: analyze_miss_def time_time_def Let_def)

text \<open>
  With no entry in the cache for any of the files, the sessions added are those of the
  scans that have a duration.
\<close>

lemma analyze_files_fresh:
  assumes "\<forall>p\<in>set files. cache tr p = None" "distinct files"
  shows "fst (analyze_files e files (ss, tr))
         = ss @ filter (\<lambda>s. 0 < duration_hours s)
                  (map (\<lambda>p. make_session p (scan_file e p)) files)"
  using assms
proof (induction files arbitrary: ss tr)
  case Nil
  then show ?case by simp
next
  case (Cons f files)
  from Cons.prems have miss: "cache tr f = None" by simp
  then have a: "analyze_jsonl_file e f tr = analyze_miss e f tr"
    by (simp add: analyze_jsonl_file_def)
  obtain s tr1 where m: "analyze_miss e f tr = (s, tr1)" by (cases "analyze_miss e f tr")
  have s: "s = make_session f (scan_file e f)"
    using analyze_miss_session [of e f tr] by (simp add: m)
  have "cache tr1 = (cache tr)(f \<mapsto> make_session f (scan_file e f))"
    using analyze_miss_cache [of e f tr] by (simp add: m)
  with Cons.prems have "\<forall>p\<in>set files. cache tr1 p = None" and "distinct files"
    by auto
  from Cons.IH [OF this] show ?case by (simp add: a m s)
qed

lemma analyze_files_positive:
  assumes "\<forall>s\<in>set ss. 0 < duration_hours s"
  shows "\<forall>s\<in>set (fst (analyze_files e files (ss, tr))). 0 < duration_hours s"
  using assms
proof (induction files arbitrary: ss tr)
  case Nil
  then show ?case by simp
next
  case (Cons f files)
  obtain s tr1 where a: "analyze_jsonl_file e f tr = (s, tr1)"
    by (cases "analyze_jsonl_file e f tr")
  let ?ss = "if 0 < duration_hours s then ss @ [s] else ss"
  have p: "\<forall>x\<in>set ?ss. 0 < duration_hours x"
    using Cons.prems by simp
  have e: "analyze_files e (f # files) (ss, tr) = analyze_files e files (?ss, tr1)"
    by (simp only: analyze_files.simps a Let_def prod.case)
  show ?case unfolding e by (rule Cons.IH [OF p])
qed

lemma scan_projects_positive:
  assumes "\<forall>s\<in>set (fst st). 0 < duration_hours s"
  shows "\<forall>s\<in>set (fst (scan_projects e dirs st)). 0 < duration_hours s"
  using assms
proof (induction dirs arbitrary: st)
  case Nil
  then show ?case by simp
next
  case (Cons d dirs)
  obtain ss tr where st: "st = (ss, tr)" by (cases st)
  let ?st = "if path_is_dir e d then analyze_files e (glob_jsonl e d) st else st"
  have "\<forall>s\<in>set (fst (analyze_files e (glob_jsonl e d) (ss, tr))). 0 < duration_hours s"
    by (rule analyze_files_positive) (use Cons.prems st in simp)
  then have p: "\<forall>s\<in>set (fst ?st). 0 < duration_hours s"
    using Cons.prems by (simp add: st)
  have e: "scan_projects e (d # dirs) st = scan_projects e dirs ?st"
    by (simp only: scan_projects.simps)
  show ?case unfolding e by (rule Cons.IH [OF p])
qed

lemma get_all_sessions_positive:
  assumes "get_all_sessions e tr = Inr (ss, tr')"
  shows "\<forall>s\<in>set ss. 0 < duration_hours s"
proof (cases "path_exists e (claude_projects tr)")
  case False
  with assms show ?thesis by (simp add: get_all_sessions_def)
next
  case True
  with assms obtain dirs where "scan_projects e dirs ([], tr) = (ss, tr')"
    by (cases "iterdir e (claude_projects tr)") (simp_all add: get_all_sessions_def)
  then show ?thesis using scan_projects_positive [of "([], tr)" e dirs] by simp
qed

lemma summarize_fields:
  "sessions (summarize e tr ss c now) = filter (\<lambda>s. week_start tr \<le> start_time s) ss"
  "weekly_prompts (summarize e tr ss c now)
   = sum_list (map prompt_count (filter (\<lambda>s. week_start tr \<le> start_time s) ss))"
  "current_5h_prompts (summarize e tr ss c now)
   = sum_list (map prompt_count (filter (\<lambda>s. cycle_5h_start tr \<le> start_time s) ss))"
  "weekly_sonnet_hours (summarize e tr ss c now)
   = py_round e (fst (model_hours (filter (\<lambda>s. week_start tr \<le> start_time s) ss))) 2"
  "weekly_opus_hours (summarize e tr ss c now)
   = py_round e (snd (model_hours (filter (\<lambda>s. week_start tr \<le> start_time s) ss))) 2"
  by (simp_all add: summarize_def Let_def split: prod.splits)

text \<open>The run of the example environment.\<close>

lemma demo_sessions:
  "\<exists>tr1. get_all_sessions demo_env (init_tracker demo_env) = Inr ([session_a], tr1)"
proof -
  have fresh: "\<forall>p\<in>set [file_a, file_b, file_c]. cache (init_tracker demo_env) p = None"
    by (simp add: demo_root)
  have d: "distinct [file_a, file_b, file_c]" by (simp add: demo_paths)
  have b: "duration_hours (make_session file_b (scan_file demo_env file_b)) = 0"
    by (simp add: make_session_no_timestamps demo_scan_b)
  have c: "duration_hours (make_session file_c (scan_file demo_env file_c)) = 0"
    by (simp add: make_session_no_timestamps demo_scan_c)
  have a: "0 < duration_hours (make_session file_a (scan_file demo_env file_a))"
    by (simp add: demo_session_a session_a_def)
  have f: "fst (analyze_files demo_env [file_a, file_b, file_c] ([], init_tracker demo_env))
           = [session_a]"
    unfolding analyze_files_fresh [OF fresh d] using a b c by (simp add: demo_session_a)
  have "get_all_sessions demo_env (init_tracker demo_env)
        = Inr (scan_projects demo_env [project_u] ([], init_tracker demo_env))"
    by (rule get_all_sessions_listed) (simp_all add: demo_root demo_listing)
  also have "scan_projects demo_env [project_u] ([], init_tracker demo_env)
             = analyze_files demo_env [file_a, file_b, file_c] ([], init_tracker demo_env)"
    by (simp add: demo_listing)
  finally show ?thesis using f
    by (cases "analyze_files demo_env [file_a, file_b, file_c] ([], init_tracker demo_env)")
       simp
qed

lemma demo_windows:
  "week_start (init_tracker demo_env) = 1704063600"
  "cycle_5h_start (init_tracker demo_env) = 1704276000"
proof -
  show "week_start (init_tracker demo_env) = 1704063600"
    by (simp add: init_tracker_def demo_env_def get_week_start_def timestamp_def
        local_seconds_def monday_midnight_def weekday_def minus_days_def cet_2024_def
        wednesday_afternoon_def)
  have "get_5h_cycle_start wednesday_epoch = 1704276000" by code_simp
  then show "cycle_5h_start (init_tracker demo_env) = 1704276000"
    by (simp add: init_tracker_def demo_env_def)
qed

lemma demo_usage:
  "\<exists>u tr'. calculate_usage demo_env (init_tracker demo_env) = Inr (u, tr')
     \<and> sessions u = [session_a] \<and> weekly_prompts u = 1 \<and> current_5h_prompts u = 1"
proof -
  from demo_sessions obtain tr1 where
    g: "get_all_sessions demo_env (init_tracker demo_env) = Inr ([session_a], tr1)"
    by blast
  from get_all_sessions_keeps [OF g] have root: "claude_projects tr1 = projects_root"
    by (simp add: demo_root)
  have "max_by (mtime_of demo_env)
          (glob_jsonl demo_env
             (joinpath (claude_projects tr1) (replace_char CHR ''/'' ''-'' (getcwd demo_env))))
        = Inr file_b"
    unfolding root demo_project_dir demo_listing by (rule demo_latest)
  then have c: "estimate_context_usage demo_env None tr1
                = Inr (read_context demo_env file_b, tr1)"
    by (rule estimate_in_project [rotated]) (simp add: root demo_project_dir demo_listing)
  let ?tr' = "snd (time_time demo_env tr1)"
  let ?u = "summarize demo_env ?tr' [session_a] (read_context demo_env file_b)
              (fst (time_time demo_env tr1))"
  have r: "calculate_usage demo_env (init_tracker demo_env) = Inr (?u, ?tr')"
    by (rule calculate_usage_returns [OF g c])
  have w: "week_start ?tr' = 1704063600" "cycle_5h_start ?tr' = 1704276000"
    using get_all_sessions_keeps [OF g] by (simp_all add: time_time_keeps demo_windows)
  have "sessions ?u = [session_a] \<and> weekly_prompts ?u = 1 \<and> current_5h_prompts ?u = 1"
    unfolding summarize_fields w by (simp add: session_a_def)
  with r show ?thesis by blast
qed

text \<open>A timestamp that parses to zero is dropped like one that does not parse.\<close>

lemma parse_timestamp_failing: "parse_timestamp (\<lambda>s. None) ts = None"
  by (simp add: parse_timestamp_def split: json.splits)

lemma process_line_epoch:
  assumes "record_timestamp fromiso line = Some 0"
  shows "process_line fromiso line a = process_line (\<lambda>s. None) line a"
proof -
  from assms obtain msg where line: "line = Some (JObj msg)"
    and p: "parse_timestamp fromiso (dict_get msg ''timestamp'' JNull) = Some 0"
    by (auto simp: record_timestamp_def split: option.splits json.splits)
  have "collect_timestamp fromiso msg a = a"
    by (simp add: collect_timestamp_def Let_def p)
  moreover have "collect_timestamp (\<lambda>s. None) msg a = a"
    by (simp add: collect_timestamp_def Let_def parse_timestamp_failing)
  ultimately show ?thesis by (simp add: process_line_def line)
qed

lemma epoch_only_session:
  assumes "\<forall>line\<in>set (fst (read_lines e p)).
             record_timestamp (fromisoformat_timestamp e) line = None
             \<or> record_timestamp (fromisoformat_timestamp e) line = Some 0"
    and "cache tr p = None"
  shows "start_time (fst (analyze_jsonl_file e p tr)) = 0
         \<and> end_time (fst (analyze_jsonl_file e p tr)) = 0
         \<and> duration_hours (fst (analyze_jsonl_file e p tr)) = 0
         \<and> fst (analyze_files e [p] (ss, tr)) = ss"
proof -
  have t: "timestamps (scan_file e p) = []"
    unfolding scan_file_def by (rule no_timestamps_collected [OF assms(1)])
  have z: "start_time (fst (analyze_jsonl_file e p tr)) = 0
         \<and> end_time (fst (analyze_jsonl_file e p tr)) = 0
         \<and> duration_hours (fst (analyze_jsonl_file e p tr)) = 0"
    unfolding analyze_uncached [OF assms(2)] by (rule make_session_no_timestamps [OF t])
  then have "fst (analyze_files e [p] (ss, tr)) = ss"
    using analyze_files_skips [of e p tr ss] by blast
  with z show ?thesis by simp
qed

text \<open>
  Claim C9. A line whose \<open>timestamp\<close> field parses to exactly 0 is processed as it is with
  a parser that fails on every string: nothing is added to the timestamps of the session.
  So when every line of a transcript has a timestamp that parses to 0 or none that parses,
  the session of the transcript (analyzed with no entry in the cache) has start time 0, end
  time 0 and duration 0, and the aggregator's loop over the files does not add it to the
  session list.
\<close>

theorem epoch_timestamp_excluded:
  "(record_timestamp fromiso line = Some 0 \<longrightarrow>
      process_line fromiso line a = process_line (\<lambda>s. None) line a
      \<and> timestamps (process_line fromiso line a) = timestamps a)
   \<and> ((\<forall>l\<in>set (fst (read_lines e p)).
           record_timestamp (fromisoformat_timestamp e) l = None
           \<or> record_timestamp (fromisoformat_timestamp e) l = Some 0)
        \<and> cache tr p = None \<longrightarrow>
      start_time (fst (analyze_jsonl_file e p tr)) = 0
      \<and> end_time (fst (analyze_jsonl_file e p tr)) = 0
      \<and> duration_hours (fst (analyze_jsonl_file e p tr)) = 0
      \<and> fst (analyze_files e [p] (ss, tr)) = ss)"
proof (intro conjI impI)
  assume z: "record_timestamp fromiso line = Some 0"
  then show "process_line fromiso line a = process_line (\<lambda>s. None) line a"
    by (rule process_line_epoch)
  show "timestamps (process_line fromiso line a) = timestamps a"
    by (simp add: process_line_timestamps z)
next
  assume h: "(\<forall>l\<in>set (fst (read_lines e p)).
           record_timestamp (fromisoformat_timestamp e) l = None
           \<or> record_timestamp (fromisoformat_timestamp e) l = Some 0)
        \<and> cache tr p = None"
  then have r: "start_time (fst (analyze_jsonl_file e p tr)) = 0
         \<and> end_time (fst (analyze_jsonl_file e p tr)) = 0
         \<and> duration_hours (fst (analyze_jsonl_file e p tr)) = 0
         \<and> fst (analyze_files e [p] (ss, tr)) = ss"
    using epoch_only_session [of e p tr ss] by blast
  from r show "start_time (fst (analyze_jsonl_file e p tr)) = 0" by simp
  from r show "end_time (fst (analyze_jsonl_file e p tr)) = 0" by simp
  from r show "duration_hours (fst (analyze_jsonl_file e p tr)) = 0" by simp
  from r show "fst (analyze_files e [p] (ss, tr)) = ss" by simp
qed

lemma epoch_line_timestamp:
  "record_timestamp iso_epoch
     (Some (user_record (JStr ''1970-01-01T00:00:00.000Z'') (JStr ''hello''))) = Some 0"
  by (simp add: record_timestamp_def user_record_def dict_get_def parse_timestamp_values)

lemma lines_c_timestamps: "map (record_timestamp iso_epoch) lines_c = [Some 0, None]"
  by (simp add: lines_c_def record_timestamp_def user_record_def assistant_record_def
      dict_get_def parse_timestamp_values)

theorem epoch_timestamp_excluded_witness:
  "record_timestamp iso_epoch
     (Some (user_record (JStr ''1970-01-01T00:00:00.000Z'') (JStr ''hello''))) = Some 0
   \<and> timestamps (process_line iso_epoch
        (Some (user_record (JStr ''1970-01-01T00:00:00.000Z'') (JStr ''hello''))) tally0) = []
   \<and> fst (read_lines demo_env file_c) = lines_c
   \<and> map (record_timestamp (fromisoformat_timestamp demo_env)) lines_c = [Some 0, None]
   \<and> cache (init_tracker demo_env) file_c = None
   \<and> start_time (fst (analyze_jsonl_file demo_env file_c (init_tracker demo_env))) = 0
   \<and> end_time (fst (analyze_jsonl_file demo_env file_c (init_tracker demo_env))) = 0
   \<and> duration_hours (fst (analyze_jsonl_file demo_env file_c (init_tracker demo_env))) = 0
   \<and> prompt_count (fst (analyze_jsonl_file demo_env file_c (init_tracker demo_env))) = 1
   \<and> fst (analyze_files demo_env [file_c] ([session_a], init_tracker demo_env)) = [session_a]"
proof -
  let ?line = "Some (user_record (JStr ''1970-01-01T00:00:00.000Z'') (JStr ''hello''))"
  have rd: "fst (read_lines demo_env file_c) = lines_c" by (simp add: demo_read)
  have ts: "map (record_timestamp (fromisoformat_timestamp demo_env)) lines_c = [Some 0, None]"
    by (simp add: demo_read lines_c_timestamps)
  then have all: "\<forall>l\<in>set (fst (read_lines demo_env file_c)).
           record_timestamp (fromisoformat_timestamp demo_env) l = None
           \<or> record_timestamp (fromisoformat_timestamp demo_env) l = Some 0"
    unfolding rd by (auto simp: lines_c_def)
  have c: "cache (init_tracker demo_env) file_c = None" by (simp add: demo_root)
  have pc: "prompt_count (fst (analyze_jsonl_file demo_env file_c (init_tracker demo_env))) = 1"
    by (simp add: analyze_uncached [OF c] make_session_def demo_scan_c Let_def)
  note t = epoch_timestamp_excluded [of iso_epoch ?line tally0 demo_env file_c
      "init_tracker demo_env" "[session_a]"]
  from t epoch_line_timestamp
  have "timestamps (process_line iso_epoch ?line tally0) = timestamps tally0" by blast
  moreover from t all c
  have "start_time (fst (analyze_jsonl_file demo_env file_c (init_tracker demo_env))) = 0
      \<and> end_time (fst (analyze_jsonl_file demo_env file_c (init_tracker demo_env))) = 0
      \<and> duration_hours (fst (analyze_jsonl_file demo_env file_c (init_tracker demo_env))) = 0
      \<and> fst (analyze_files demo_env [file_c] ([session_a], init_tracker demo_env))
          = [session_a]"
    by blast
  ultimately show ?thesis using epoch_line_timestamp rd ts c pc by (simp add: tally0_def)
qed

lemma no_timestamps_session:
  assumes "timestamps (scan_file e p) = []" "cache tr p = None"
  shows "start_time (fst (analyze_jsonl_file e p tr)) = 0
         \<and> end_time (fst (analyze_jsonl_file e p tr)) = 0
         \<and> duration_hours (fst (analyze_jsonl_file e p tr)) = 0
         \<and> fst (analyze_files e [p] (ss, tr)) = ss"
proof -
  have z: "start_time (fst (analyze_jsonl_file e p tr)) = 0
         \<and> end_time (fst (analyze_jsonl_file e p tr)) = 0
         \<and> duration_hours (fst (analyze_jsonl_file e p tr)) = 0"
    unfolding analyze_uncached [OF assms(2)] by (rule make_session_no_timestamps [OF assms(1)])
  then have "fst (analyze_files e [p] (ss, tr)) = ss"
    using analyze_files_skips [of e p tr ss] by blast
  with z show ?thesis by simp
qed

lemma calculate_usage_sessions:
  assumes "calculate_usage e tr = Inr (u, tr')"
  shows "\<exists>all tr1. get_all_sessions e tr = Inr (all, tr1)
           \<and> (\<forall>s\<in>set all. 0 < duration_hours s)
           \<and> sessions u = filter (\<lambda>s. week_start tr \<le> start_time s) all
           \<and> weekly_prompts u
               = sum_list (map prompt_count (filter (\<lambda>s. week_start tr \<le> start_time s) all))
           \<and> current_5h_prompts u
               = sum_list (map prompt_count
                   (filter (\<lambda>s. cycle_5h_start tr \<le> start_time s) all))
           \<and> weekly_sonnet_hours u
               = py_round e (fst (model_hours (filter (\<lambda>s. week_start tr \<le> start_time s) all))) 2
           \<and> weekly_opus_hours u
               = py_round e (snd (model_hours (filter (\<lambda>s. week_start tr \<le> start_time s) all))) 2"
proof -
  from calculate_usage_summary [OF assms] obtain all tr1 c now where
    g: "get_all_sessions e tr = Inr (all, tr1)" and u: "u = summarize e tr' all c now"
    and w: "week_start tr' = week_start tr" "cycle_5h_start tr' = cycle_5h_start tr"
    by blast
  from get_all_sessions_positive [OF g] have p: "\<forall>s\<in>set all. 0 < duration_hours s" .
  show ?thesis
    apply (rule exI [of _ all])
    apply (rule exI [of _ tr1])
    unfolding u summarize_fields w
    using g p by simp
qed

text \<open>
  Claim C6. A transcript from which no timestamp is collected, analyzed with no entry in
  the cache, gives a session with start time 0, end time 0 and duration 0, and the
  aggregator's loop over the files does not add that session to the list. Every session of
  the list that \<^verbatim>\<open>get_all_sessions\<close> returns has a duration above zero; and the week's
  sessions, the weekly and the cycle prompt counts and the weekly hours that
  \<^verbatim>\<open>calculate_usage\<close> reports are computed from that list alone.
\<close>

theorem zero_timestamp_session_excluded:
  "(timestamps (scan_file e p) = [] \<and> cache tr p = None \<longrightarrow>
      start_time (fst (analyze_jsonl_file e p tr)) = 0
      \<and> end_time (fst (analyze_jsonl_file e p tr)) = 0
      \<and> duration_hours (fst (analyze_jsonl_file e p tr)) = 0
      \<and> fst (analyze_files e [p] (ss, tr)) = ss)
   \<and> (\<forall>all tr1. get_all_sessions e tr = Inr (all, tr1)
         \<longrightarrow> (\<forall>s\<in>set all. 0 < duration_hours s))
   \<and> (\<forall>u tr'. calculate_usage e tr = Inr (u, tr') \<longrightarrow>
         (\<exists>all tr1. get_all_sessions e tr = Inr (all, tr1)
           \<and> (\<forall>s\<in>set all. 0 < duration_hours s)
           \<and> sessions u = filter (\<lambda>s. week_start tr \<le> start_time s) all
           \<and> weekly_prompts u
               = sum_list (map prompt_count (filter (\<lambda>s. week_start tr \<le> start_time s) all))
           \<and> current_5h_prompts u
               = sum_list (map prompt_count
                   (filter (\<lambda>s. cycle_5h_start tr \<le> start_time s) all))
           \<and> weekly_sonnet_hours u
               = py_round e (fst (model_hours (filter (\<lambda>s. week_start tr \<le> start_time s) all))) 2
           \<and> weekly_opus_hours u
               = py_round e
                   (snd (model_hours (filter (\<lambda>s. week_start tr \<le> start_time s) all))) 2))"
proof (intro conjI allI impI)
  assume h: "timestamps (scan_file e p) = [] \<and> cache tr p = None"
  then have r: "start_time (fst (analyze_jsonl_file e p tr)) = 0
         \<and> end_time (fst (analyze_jsonl_file e p tr)) = 0
         \<and> duration_hours (fst (analyze_jsonl_file e p tr)) = 0
         \<and> fst (analyze_files e [p] (ss, tr)) = ss"
    using no_timestamps_session [of e p tr ss] by blast
  from r show "start_time (fst (analyze_jsonl_file e p tr)) = 0" by simp
  from r show "end_time (fst (analyze_jsonl_file e p tr)) = 0" by simp
  from r show "duration_hours (fst (analyze_jsonl_file e p tr)) = 0" by simp
  from r show "fst (analyze_files e [p] (ss, tr)) = ss" by simp
next
  fix all tr1
  assume "get_all_sessions e tr = Inr (all, tr1)"
  then show "\<forall>s\<in>set all. 0 < duration_hours s" by (rule get_all_sessions_positive)
next
  fix u tr'
  assume "calculate_usage e tr = Inr (u, tr')"
  then show "\<exists>all tr1. get_all_sessions e tr = Inr (all, tr1)
           \<and> (\<forall>s\<in>set all. 0 < duration_hours s)
           \<and> sessions u = filter (\<lambda>s. week_start tr \<le> start_time s) all
           \<and> weekly_prompts u
               = sum_list (map prompt_count (filter (\<lambda>s. week_start tr \<le> start_time s) all))
           \<and> current_5h_prompts u
               = sum_list (map prompt_count
                   (filter (\<lambda>s. cycle_5h_start tr \<le> start_time s) all))
           \<and> weekly_sonnet_hours u
               = py_round e (fst (model_hours (filter (\<lambda>s. week_start tr \<le> start_time s) all))) 2
           \<and> weekly_opus_hours u
               = py_round e
                   (snd (model_hours (filter (\<lambda>s. week_start tr \<le> start_time s) all))) 2"
    by (rule calculate_usage_sessions)
qed

theorem zero_timestamp_session_excluded_witness:
  "timestamps (scan_file demo_env file_b) = [] \<and> prompts (scan_file demo_env file_b) = 1
   \<and> cache (init_tracker demo_env) file_b = None
   \<and> start_time (fst (analyze_jsonl_file demo_env file_b (init_tracker demo_env))) = 0
   \<and> end_time (fst (analyze_jsonl_file demo_env file_b (init_tracker demo_env))) = 0
   \<and> duration_hours (fst (analyze_jsonl_file demo_env file_b (init_tracker demo_env))) = 0
   \<and> fst (analyze_files demo_env [file_b] ([session_a], init_tracker demo_env)) = [session_a]
   \<and> (\<exists>tr1. get_all_sessions demo_env (init_tracker demo_env) = Inr ([session_a], tr1))
   \<and> 0 < duration_hours session_a
   \<and> (\<exists>u tr'. calculate_usage demo_env (init_tracker demo_env) = Inr (u, tr')
         \<and> sessions u = [session_a] \<and> weekly_prompts u = 1 \<and> current_5h_prompts u = 1)"
proof -
  have s: "timestamps (scan_file demo_env file_b) = []" "prompts (scan_file demo_env file_b) = 1"
    by (simp_all add: demo_scan_b)
  have c: "cache (init_tracker demo_env) file_b = None" by (simp add: demo_root)
  note t = zero_timestamp_session_excluded [of demo_env file_b "init_tracker demo_env"
      "[session_a]"]
  from t s(1) c
  have z: "start_time (fst (analyze_jsonl_file demo_env file_b (init_tracker demo_env))) = 0
      \<and> end_time (fst (analyze_jsonl_file demo_env file_b (init_tracker demo_env))) = 0
      \<and> duration_hours (fst (analyze_jsonl_file demo_env file_b (init_tracker demo_env))) = 0
      \<and> fst (analyze_files demo_env [file_b] ([session_a], init_tracker demo_env))
          = [session_a]"
    by blast
  from demo_sessions obtain tr1 where
    g: "get_all_sessions demo_env (init_tracker demo_env) = Inr ([session_a], tr1)"
    by blast
  with t have "\<forall>s\<in>set [session_a]. 0 < duration_hours s" by blast
  then have d: "0 < duration_hours session_a" by simp
  from z s c g d demo_usage show ?thesis by blast
qed

subsection \<open>Timestamp parser\<close>

text \<open>What the library is asked: the timestamp as it is, with \<open>Z\<close> written as an offset.\<close>

lemma parse_timestamp_no_fraction:
  assumes "CHR ''.'' \<notin> set s" "s \<noteq> []" "s \<noteq> ''null''"
  shows "parse_timestamp fromiso (JStr s) = fromiso (replace_char CHR ''Z'' ''+00:00'' s)"
  using assms by (simp add: parse_timestamp_def clean_ts_def)

text \<open>
  With a fraction, the library is asked for the text before the first dot, read as UTC:
  whatever follows the dot is cut off with the fraction.
\<close>

lemma parse_timestamp_fraction:
  assumes "CHR ''.'' \<notin> set d" "CHR ''Z'' \<notin> set d"
  shows "parse_timestamp fromiso (JStr (d @ ''.'' @ rest)) = fromiso (d @ ''+00:00'')"
proof -
  have t: "takeWhile (\<lambda>c. c \<noteq> CHR ''.'') (d @ CHR ''.'' # rest) = d"
    using assms(1) by (induction d) auto
  have r: "replace_char CHR ''Z'' ''+00:00'' (d @ ''Z'') = d @ ''+00:00''"
    using assms(2) by (induction d) (auto simp: replace_char_def)
  have n: "d @ CHR ''.'' # rest \<noteq> ''null''"
  proof
    assume "d @ CHR ''.'' # rest = ''null''"
    then have "CHR ''.'' \<in> set ''null''" by (metis in_set_conv_decomp)
    then show False by simp
  qed
  show ?thesis using n by (simp add: parse_timestamp_def clean_ts_def t r)
qed

text \<open>
  Claim C4. The claim does not hold of the parser. The timestamp
  \<^verbatim>\<open>2024-01-01T12:00:00.500+05:00\<close> is valid, has fractional seconds and an offset of
  five hours. Whatever the library parser is, the tracker asks it for
  \<^verbatim>\<open>2024-01-01T12:00:00+00:00\<close>, noon UTC, epoch second 1704110400. The timestamp with its
  fraction truncated is \<^verbatim>\<open>2024-01-01T12:00:00+05:00\<close>, epoch second 1704092400: the
  offset of the input is lost, and the result is five hours late.
\<close>

theorem fraction_drops_offset:
  "(\<forall>fromiso. parse_timestamp fromiso (JStr ''2024-01-01T12:00:00.500+05:00'')
               = fromiso ''2024-01-01T12:00:00+00:00'')
   \<and> parse_timestamp iso_epoch (JStr ''2024-01-01T12:00:00.500+05:00'') = Some 1704110400
   \<and> iso_epoch ''2024-01-01T12:00:00+05:00'' = Some 1704092400"
proof -
  have p: "parse_timestamp fromiso (JStr ''2024-01-01T12:00:00.500+05:00'')
           = fromiso ''2024-01-01T12:00:00+00:00''" for fromiso
    by (simp add: parse_timestamp_def clean_ts_def replace_char_def)
  have "iso_epoch ''2024-01-01T12:00:00+00:00'' = Some 1704110400" by code_simp
  moreover have "iso_epoch ''2024-01-01T12:00:00+05:00'' = Some 1704092400" by code_simp
  ultimately show ?thesis by (simp add: p)
qed

theorem fraction_drops_offset_witness:
  "parse_timestamp iso_epoch (JStr ''2024-01-01T12:00:00.500+05:00'') = Some 1704110400
   \<and> parse_timestamp iso_epoch (JStr ''2024-01-01T12:00:00.500+05:00'')
     \<noteq> iso_epoch ''2024-01-01T12:00:00+05:00''"
proof -
  from fraction_drops_offset
  have b: "parse_timestamp iso_epoch (JStr ''2024-01-01T12:00:00.500+05:00'')
            = Some 1704110400"
    and c: "iso_epoch ''2024-01-01T12:00:00+05:00'' = Some 1704092400"
    by blast+
  show ?thesis by (simp add: b c)
qed

subsection \<open>Context estimator: failures\<close>

text \<open>The failures the estimator turns into \<open>None\<close>.\<close>

lemma read_context_error:
  "stat e f = Inl err \<Longrightarrow> read_context e f = None"
  "read_lines e f = (lines, Some err) \<Longrightarrow> read_context e f = None"
  by (simp_all add: read_context_def split: sum.splits)

lemma estimate_no_directory:
  assumes "resolve_project_dir e (case pp of None \<Rightarrow> getcwd e | Some x \<Rightarrow> x) tr = Inr (d, tr1)"
    and "\<not> path_exists e d \<or> glob_jsonl e d = []"
  shows "estimate_context_usage e pp tr = Inr (None, tr1)"
  using assms by (auto simp: estimate_context_usage_def Let_def)

text \<open>A failure while the latest transcript is selected leaves the estimator.\<close>

lemma estimate_selection_raises:
  assumes "path_exists e (joinpath (claude_projects tr) (replace_char CHR ''/'' ''-'' (getcwd e)))"
    and "glob_jsonl e (joinpath (claude_projects tr) (replace_char CHR ''/'' ''-'' (getcwd e)))
         \<noteq> []"
    and "max_by (mtime_of e)
           (glob_jsonl e (joinpath (claude_projects tr) (replace_char CHR ''/'' ''-'' (getcwd e))))
         = Inl err"
  shows "estimate_context_usage e None tr = Inl err"
proof -
  have r: "resolve_project_dir e (getcwd e) tr
           = Inr (joinpath (claude_projects tr) (replace_char CHR ''/'' ''-'' (getcwd e)), tr)"
    using assms(1) by (simp add: resolve_project_dir_def Let_def)
  show ?thesis using assms by (simp add: estimate_context_usage_def r Let_def)
qed

text \<open>
  Claim C8. The claim does not hold of the estimator. \<^verbatim>\<open>max\<close> over the transcripts of the
  project directory calls \<^verbatim>\<open>stat\<close> on each of them before the \<^verbatim>\<open>try\<close> begins, and the
  fallback lists the storage root before it. With a link \<open>x.jsonl\<close> whose target is gone
  beside the transcripts of the project directory, and with a storage root that may not be listed,
  \<^verbatim>\<open>estimate_context_usage\<close> raises \<open>OSError\<close> where the claim has it return \<open>None\<close>.
\<close>

theorem estimator_raises:
  "estimate_context_usage dangling_env None (init_tracker dangling_env) = Inl OSError
   \<and> estimate_context_usage locked_env None (init_tracker locked_env) = Inl OSError"
proof -
  have d: "claude_projects (init_tracker dangling_env) = projects_root"
    "joinpath projects_root (replace_char CHR ''/'' ''-'' (getcwd dangling_env)) = project_u"
    "path_exists dangling_env project_u"
    "glob_jsonl dangling_env project_u = [file_a, file_b, file_c, link_x]"
    using demo_root(1) demo_project_dir(1) demo_listing(2)
    by (simp_all add: dangling_env_def init_tracker_def)
  have x: "link_x \<noteq> file_a" "link_x \<noteq> file_b" "link_x \<noteq> file_c"
    by (simp_all add: link_x_def file_a_def file_b_def file_c_def)
  have m: "max_by (mtime_of dangling_env) [file_a, file_b, file_c, link_x] = Inl OSError"
    using demo_stat x by (simp add: mtime_of_def dangling_env_def demo_paths)
  have "max_by (mtime_of dangling_env)
          (glob_jsonl dangling_env
             (joinpath (claude_projects (init_tracker dangling_env))
                (replace_char CHR ''/'' ''-'' (getcwd dangling_env))))
        = Inl OSError"
    unfolding d by (rule m)
  then have 1: "estimate_context_usage dangling_env None (init_tracker dangling_env)
                = Inl OSError"
    by (rule estimate_selection_raises [rotated 2]) (simp_all add: d)
  have l: "claude_projects (init_tracker locked_env) = projects_root"
    "joinpath projects_root (replace_char CHR ''/'' ''-'' (getcwd locked_env)) = project_u"
    "\<not> path_exists locked_env project_u" "path_exists locked_env projects_root"
    "iterdir locked_env projects_root = Inl OSError"
    using demo_root(1) demo_project_dir(1) demo_paths
    by (simp_all add: locked_env_def init_tracker_def)
  have "resolve_project_dir locked_env (getcwd locked_env) (init_tracker locked_env)
        = Inl OSError"
    by (simp add: resolve_project_dir_def Let_def l)
  then have 2: "estimate_context_usage locked_env None (init_tracker locked_env) = Inl OSError"
    by (simp add: estimate_context_usage_def)
  from 1 2 show ?thesis by simp
qed

subsection \<open>Cache of the session analyzer\<close>

lemma analyze_miss_eq:
  "analyze_miss e p tr
   = (make_session p (scan_file e p),
      tr\<lparr>clock_reads := clock_reads tr + 1,
          cache := (cache tr)(p \<mapsto> make_session p (scan_file e p)),
          cache_time := clock e (clock_reads tr)\<rparr>)"
  by (simp add: analyze_miss_def time_time_def Let_def)

text \<open>
  A request that finds an entry, less than the time-to-live after the cache was last
  written, returns the entry; the file is not read, and only the clock has been.
\<close>

lemma cache_hit:
  assumes "cache tr p = Some s"
    and "clock e (clock_reads tr) - cache_time tr < cache_duration tr"
  shows "analyze_jsonl_file e p tr = (s, tr\<lparr>clock_reads := clock_reads tr + 1\<rparr>)"
  using assms by (simp add: analyze_jsonl_file_def time_time_def Let_def)

text \<open>A request that finds an entry when the time-to-live has passed reads the file again.\<close>

lemma cache_expired:
  assumes "cache tr p = Some s"
    and "\<not> clock e (clock_reads tr) - cache_time tr < cache_duration tr"
  shows "fst (analyze_jsonl_file e p tr) = make_session p (scan_file e p)"
  using assms by (simp add: analyze_jsonl_file_def time_time_def Let_def analyze_miss_eq)

lemma ticking_scan: "scan_file ticking_env p = scan_file demo_env p"
  by (simp add: scan_file_def ticking_env_def)

lemma rewritten_session:
  "duration_hours (make_session file_a (scan_file rewritten_env file_a)) = 0"
proof -
  have "scan_file rewritten_env file_a = scan_file demo_env file_c"
    by (simp add: scan_file_def rewritten_env_def ticking_env_def demo_read)
  then show ?thesis by (simp add: make_session_no_timestamps demo_scan_c)
qed

text \<open>
  Claim C3. The claim does not hold of the analyzer: the cache has one time for all its
  entries, the time of the last write. \<open>a.jsonl\<close> is analyzed at second 4 of the ticking
  clock and \<open>b.jsonl\<close> at second 8; then \<open>a.jsonl\<close> is rewritten and analyzed again at
  second 12. Its entry is eight seconds old, more than the time-to-live of five, but the
  cache was written four seconds ago: the request is served from the cache, with the
  session of two hours that the file no longer holds.
\<close>

theorem stale_entry_served:
  "(let tr0 = init_tracker ticking_env;
        (s1, tr1) = analyze_jsonl_file ticking_env file_a tr0;
        (s2, tr2) = analyze_jsonl_file ticking_env file_b tr1;
        (s3, tr3) = analyze_jsonl_file rewritten_env file_a tr2
    in s1 = session_a
       \<and> cache_time tr1 = wednesday_epoch + 4
       \<and> cache_time tr2 = wednesday_epoch + 8
       \<and> clock rewritten_env (clock_reads tr2) = wednesday_epoch + 12
       \<and> cache_duration tr2 = 5
       \<and> s3 = session_a
       \<and> duration_hours s3 = 2
       \<and> duration_hours (make_session file_a (scan_file rewritten_env file_a)) = 0)"
proof -
  let ?tr0 = "init_tracker ticking_env"
  have tr0: "cache ?tr0 = Map.empty" "clock_reads ?tr0 = 1" "cache_duration ?tr0 = 5"
    by (simp_all add: init_tracker_def)
  have clk: "clock ticking_env n = wednesday_epoch + 4 * of_nat n"
    "clock rewritten_env n = wednesday_epoch + 4 * of_nat n" for n
    by (simp_all add: rewritten_env_def ticking_env_def)
  have sa: "make_session file_a (scan_file ticking_env file_a) = session_a"
    by (simp add: ticking_scan demo_session_a)
  let ?tr1 = "?tr0\<lparr>clock_reads := 2, cache := [file_a \<mapsto> session_a],
                     cache_time := wednesday_epoch + 4\<rparr>"
  have 1: "analyze_jsonl_file ticking_env file_a ?tr0 = (session_a, ?tr1)"
    by (simp add: analyze_jsonl_file_def tr0 analyze_miss_eq sa clk)
  let ?sb = "make_session file_b (scan_file ticking_env file_b)"
  let ?tr2 = "?tr0\<lparr>clock_reads := 3, cache := [file_a \<mapsto> session_a, file_b \<mapsto> ?sb],
                     cache_time := wednesday_epoch + 8\<rparr>"
  have 2: "analyze_jsonl_file ticking_env file_b ?tr1 = (?sb, ?tr2)"
    by (simp add: analyze_jsonl_file_def analyze_miss_eq clk demo_paths)
  have hit: "cache ?tr2 file_a = Some session_a" by (simp add: demo_paths)
  have fresh: "clock rewritten_env (clock_reads ?tr2) - cache_time ?tr2 < cache_duration ?tr2"
    by (simp add: clk tr0)
  have 3: "analyze_jsonl_file rewritten_env file_a ?tr2
           = (session_a, ?tr2\<lparr>clock_reads := clock_reads ?tr2 + 1\<rparr>)"
    by (rule cache_hit [OF hit fresh])
  show ?thesis
    unfolding Let_def 1 2 3 prod.case
    by (simp add: clk tr0 rewritten_session) (simp add: session_a_def)
qed

subsection \<open>Context estimator: the estimate\<close>

lemma make_context_fields:
  "estimated_tokens (make_context e file_size content_chars)
   = max (content_chars div 4) (file_size div 6)"
  "percentage (make_context e file_size content_chars)
   = py_round e (of_nat (max (content_chars div 4) (file_size div 6)) / 200000 * 100) 1"
  "context_limit (make_context e file_size content_chars) = 200000"
  by (simp_all add: make_context_def Let_def max.commute)

lemma read_context_readable:
  assumes "stat e f = Inr st" "read_lines e f = (lines, None)"
  shows "read_context e f = Some (make_context e (st_size st) (total_content_chars e lines))"
  using assms by (simp add: read_context_def)

lemma read_context_some:
  assumes "read_context e f = Some c"
  shows "\<exists>st lines. stat e f = Inr st \<and> read_lines e f = (lines, None)
           \<and> c = make_context e (st_size st) (total_content_chars e lines)"
  using assms by (auto simp: read_context_def split: sum.splits prod.splits option.splits)

lemma estimate_some:
  assumes "estimate_context_usage e pp tr = Inr (Some c, tr')"
  shows "\<exists>d f. max_by (mtime_of e) (glob_jsonl e d) = Inr f \<and> read_context e f = Some c"
  using assms
  by (auto simp: estimate_context_usage_def Let_def split: sum.splits prod.splits if_splits)

text \<open>
  Claim C2. For every transcript \<open>f\<close> that can be read, of \<open>st_size st\<close> bytes and with the
  lines \<open>lines\<close>, the estimator has a result; its token count is the maximum of the
  extracted content characters divided by 4 and the file size divided by 6 (both integer
  divisions), which is 100 for 5 characters and 600 bytes; and its percentage is that
  maximum divided by 200000, times 100, rounded to one decimal. Every value that
  \<^verbatim>\<open>estimate_context_usage\<close> returns is this result for the transcript modified last in
  some project directory.
\<close>

theorem estimated_tokens_maximum:
  "(stat e f = Inr st \<and> read_lines e f = (lines, None) \<longrightarrow>
      (\<exists>c. read_context e f = Some c
         \<and> estimated_tokens c = max (total_content_chars e lines div 4) (st_size st div 6)
         \<and> (total_content_chars e lines = 5 \<and> st_size st = 600 \<longrightarrow> estimated_tokens c = 100)
         \<and> percentage c = py_round e (of_nat (estimated_tokens c) / 200000 * 100) 1
         \<and> context_limit c = 200000))
   \<and> (estimate_context_usage e project_path tr = Inr (Some c', tr') \<longrightarrow>
      (\<exists>d f' st' lines'. max_by (mtime_of e) (glob_jsonl e d) = Inr f'
         \<and> stat e f' = Inr st' \<and> read_lines e f' = (lines', None)
         \<and> read_context e f' = Some c'
         \<and> estimated_tokens c' = max (total_content_chars e lines' div 4) (st_size st' div 6)
         \<and> percentage c' = py_round e (of_nat (estimated_tokens c') / 200000 * 100) 1))"
proof (intro conjI impI)
  assume "stat e f = Inr st \<and> read_lines e f = (lines, None)"
  then have "read_context e f
             = Some (make_context e (st_size st) (total_content_chars e lines))"
    using read_context_readable by blast
  then show "\<exists>c. read_context e f = Some c
         \<and> estimated_tokens c = max (total_content_chars e lines div 4) (st_size st div 6)
         \<and> (total_content_chars e lines = 5 \<and> st_size st = 600 \<longrightarrow> estimated_tokens c = 100)
         \<and> percentage c = py_round e (of_nat (estimated_tokens c) / 200000 * 100) 1
         \<and> context_limit c = 200000"
    by (simp add: make_context_fields)
next
  assume "estimate_context_usage e project_path tr = Inr (Some c', tr')"
  from estimate_some [OF this] obtain d f' where
    m: "max_by (mtime_of e) (glob_jsonl e d) = Inr f'" and r: "read_context e f' = Some c'"
    by blast
  from read_context_some [OF r] obtain st' lines' where
    s: "stat e f' = Inr st'" "read_lines e f' = (lines', None)"
    and c: "c' = make_context e (st_size st') (total_content_chars e lines')"
    by blast
  have "estimated_tokens c' = max (total_content_chars e lines' div 4) (st_size st' div 6)
        \<and> percentage c' = py_round e (of_nat (estimated_tokens c') / 200000 * 100) 1"
    by (simp add: c make_context_fields)
  with m r s show "\<exists>d f' st' lines'. max_by (mtime_of e) (glob_jsonl e d) = Inr f'
         \<and> stat e f' = Inr st' \<and> read_lines e f' = (lines', None)
         \<and> read_context e f' = Some c'
         \<and> estimated_tokens c' = max (total_content_chars e lines' div 4) (st_size st' div 6)
         \<and> percentage c' = py_round e (of_nat (estimated_tokens c') / 200000 * 100) 1"
    by blast
qed

lemma demo_hello: "total_content_chars demo_env lines_b = 5"
  by (simp add: total_content_chars_def lines_b_def user_record_def count_line_def dict_get_def)

lemma demo_estimate:
  "estimate_context_usage demo_env None (init_tracker demo_env)
   = Inr (read_context demo_env file_b, init_tracker demo_env)"
proof -
  have "max_by (mtime_of demo_env)
          (glob_jsonl demo_env
             (joinpath (claude_projects (init_tracker demo_env))
                (replace_char CHR ''/'' ''-'' (getcwd demo_env))))
        = Inr file_b"
    unfolding demo_root demo_project_dir demo_listing by (rule demo_latest)
  then show ?thesis
    by (rule estimate_in_project [rotated]) (simp add: demo_root demo_project_dir demo_listing)
qed

theorem estimated_tokens_maximum_witness:
  "stat demo_env file_b = Inr \<lparr>st_mtime = 1704292000, st_size = 600\<rparr>
   \<and> read_lines demo_env file_b = (lines_b, None)
   \<and> total_content_chars demo_env lines_b = 5
   \<and> (\<exists>c. estimate_context_usage demo_env None (init_tracker demo_env)
              = Inr (Some c, init_tracker demo_env)
          \<and> estimated_tokens c = 100
          \<and> percentage c = py_round demo_env (of_nat 100 / 200000 * 100) 1
          \<and> context_limit c = 200000)"
proof -
  note t = estimated_tokens_maximum [of demo_env file_b "\<lparr>st_mtime = 1704292000, st_size = 600\<rparr>"
      lines_b None "init_tracker demo_env"]
  from t demo_stat(2) demo_read(2) obtain c where
    r: "read_context demo_env file_b = Some c"
    and c: "total_content_chars demo_env lines_b = 5
              \<and> st_size \<lparr>st_mtime = 1704292000, st_size = 600\<rparr> = 600
            \<longrightarrow> estimated_tokens c = 100"
      "percentage c = py_round demo_env (of_nat (estimated_tokens c) / 200000 * 100) 1"
      "context_limit c = 200000"
    by blast
  from c(1) demo_hello have n: "estimated_tokens c = 100" by simp
  have "estimate_context_usage demo_env None (init_tracker demo_env)
        = Inr (Some c, init_tracker demo_env)"
    by (simp add: demo_estimate r)
  with n c(2,3) have "\<exists>c. estimate_context_usage demo_env None (init_tracker demo_env)
              = Inr (Some c, init_tracker demo_env)
          \<and> estimated_tokens c = 100
          \<and> percentage c = py_round demo_env (of_nat 100 / 200000 * 100) 1
          \<and> context_limit c = 200000"
    by auto
  with demo_stat(2) demo_read(2) demo_hello show ?thesis by blast
qed

subsection \<open>Qualifying user prompts\<close>

lemma dict_get_default:
  "dict_get d k x = v \<Longrightarrow> v \<noteq> x \<Longrightarrow> dict_get d k y = v"
  by (auto simp: dict_get_def split: option.splits)





lemma marker_in_string:
  "str_in ''<command-name>'' (JStr t) = Inr (sublist ''<command-name>'' t)"
  "str_in ''<local-command-stdout>'' (JStr t) = Inr (sublist ''<local-command-stdout>'' t)"
  by (simp_all add: str_contains_sublist)











end
